theory Spec2Isabelle
  imports Main "HOL-Library.Char_ord" "HOL-Library.List_Lexorder"
begin

section \<open>Python values seen as pytrees\<close>

text \<open>
  The values \<^verbatim>\<open>tree_util.py\<close> traverses. A value is an opaque payload of an unregistered
  type, or a container of one of the types the module knows:
  \<^item> \<^verbatim>\<open>None\<close>, \<^verbatim>\<open>tuple\<close>, \<^verbatim>\<open>list\<close>, \<^verbatim>\<open>dict\<close> and named tuples, the built-in node types of the
    registries (\<^verbatim>\<open>enable_tuple=True, enable_namedtuple=True, enable_list=True, enable_dict=True\<close>
    in every instance);
  \<^item> \<^verbatim>\<open>collections.OrderedDict\<close> and \<^verbatim>\<open>collections.defaultdict\<close>, registered by the module
    itself when it is imported;
  \<^item> an instance of a user class, which is a node only once \<^verbatim>\<open>register_pytree_node\<close> has
    registered its class. Its \<^verbatim>\<open>flatten_func\<close> returns the children and the auxiliary data
    stored in the instance.

  Dictionaries keep their items in insertion order, as Python does; keys are strings, compared
  as Python compares \<^verbatim>\<open>str\<close> (lexicographically by code point). The \<^verbatim>\<open>default_factory\<close> of
  a \<^verbatim>\<open>defaultdict\<close> is an optional name. A named tuple carries its class name and its fields.
\<close>

datatype 'a pytree =
    Opaque 'a
  | PyNone
  | PyTuple "'a pytree list"
  | PyList "'a pytree list"
  | PyDict "(string \<times> 'a pytree) list"
  | PyOrderedDict "(string \<times> 'a pytree) list"
  | PyDefaultDict "string option" "(string \<times> 'a pytree) list"
  | PyNamedTuple string "(string \<times> 'a pytree) list"
  | PyCustom string string "'a pytree list"

text \<open>\<^verbatim>\<open>type(x)\<close>. All opaque payloads share one tag: no function of the module compares
  the types of two values that are both of unregistered type.\<close>

datatype pytype =
    NoneType | TupleType | ListType | DictType | OrderedDictType | DefaultDictType
  | NamedTupleType string "string list"
  | CustomType string
  | OpaqueType

fun type_of :: "'a pytree \<Rightarrow> pytype" where
  "type_of (Opaque x) = OpaqueType"
| "type_of PyNone = NoneType"
| "type_of (PyTuple xs) = TupleType"
| "type_of (PyList xs) = ListType"
| "type_of (PyDict kvs) = DictType"
| "type_of (PyOrderedDict kvs) = OrderedDictType"
| "type_of (PyDefaultDict f kvs) = DefaultDictType"
| "type_of (PyNamedTuple n fvs) = NamedTupleType n (map fst fvs)"
| "type_of (PyCustom c a xs) = CustomType c"

text \<open>The hashable auxiliary data a node's decompose function returns next to the children.\<close>

datatype node_data =
    NoData
  | Keys "string list"
  | FactoryKeys "string option" "string list"
  | TypeData pytype
  | Aux string

text \<open>A Python dict has each key once; a named tuple has each field once.\<close>

fun wf_pytree :: "'a pytree \<Rightarrow> bool" where
  "wf_pytree (Opaque x) = True"
| "wf_pytree PyNone = True"
| "wf_pytree (PyTuple xs) = (\<forall>x \<in> set xs. wf_pytree x)"
| "wf_pytree (PyList xs) = (\<forall>x \<in> set xs. wf_pytree x)"
| "wf_pytree (PyDict kvs) = (distinct (map fst kvs) \<and> (\<forall>x \<in> set (map snd kvs). wf_pytree x))"
| "wf_pytree (PyOrderedDict kvs) =
     (distinct (map fst kvs) \<and> (\<forall>x \<in> set (map snd kvs). wf_pytree x))"
| "wf_pytree (PyDefaultDict f kvs) =
     (distinct (map fst kvs) \<and> (\<forall>x \<in> set (map snd kvs). wf_pytree x))"
| "wf_pytree (PyNamedTuple n fvs) =
     (distinct (map fst fvs) \<and> (\<forall>x \<in> set (map snd fvs). wf_pytree x))"
| "wf_pytree (PyCustom c a xs) = (\<forall>x \<in> set xs. wf_pytree x)"

section \<open>Treedefs\<close>

text \<open>The spec's data model: a treedef is \<open>Leaf\<close> or \<open>Node(type_tag, aux_metadata, children)\<close>.\<close>

datatype treedef =
    LeafDef
  | NodeDef pytype node_data "treedef list"

text \<open>Modelled from the spec: \<^verbatim>\<open>PyTreeDef.num_leaves\<close> of the extension module
  \<^verbatim>\<open>jax._src.lib.pytree\<close>, which is not among the sources: the count of \<open>Leaf\<close> occurrences.\<close>

fun num_leaves :: "treedef \<Rightarrow> nat" where
  "num_leaves LeafDef = 1"
| "num_leaves (NodeDef ty d cs) = sum_list (map num_leaves cs)"

text \<open>Modelled from the spec: \<^verbatim>\<open>PyTreeDef.num_nodes\<close> of the same extension module: the count
  of all nodes of the treedef, leaves included.\<close>

fun num_nodes :: "treedef \<Rightarrow> nat" where
  "num_nodes LeafDef = 1"
| "num_nodes (NodeDef ty d cs) = 1 + sum_list (map num_nodes cs)"

text \<open>Modelled from the spec: \<^verbatim>\<open>PyTreeDef.compose\<close>, the treedef that has \<open>inner\<close> in the
  place of every leaf of \<open>outer\<close>.\<close>

fun compose :: "treedef \<Rightarrow> treedef \<Rightarrow> treedef" where
  "compose LeafDef inner = inner"
| "compose (NodeDef ty d cs) inner = NodeDef ty d (map (\<lambda>c. compose c inner) cs)"

text \<open>A treedef node built by flattening has as many keys (or fields) as children.\<close>

fun wf_treedef :: "treedef \<Rightarrow> bool" where
  "wf_treedef LeafDef = True"
| "wf_treedef (NodeDef ty d cs) =
     ((case (ty, d) of
         (NoneType, NoData) \<Rightarrow> cs = []
       | (TupleType, NoData) \<Rightarrow> True
       | (ListType, NoData) \<Rightarrow> True
       | (DictType, Keys ks) \<Rightarrow> length ks = length cs \<and> sorted ks \<and> distinct ks
       | (OrderedDictType, Keys ks) \<Rightarrow> length ks = length cs \<and> distinct ks
       | (DefaultDictType, FactoryKeys f ks) \<Rightarrow> length ks = length cs \<and> sorted ks \<and> distinct ks
       | (NamedTupleType n fs, TypeData ty') \<Rightarrow>
           ty' = ty \<and> length fs = length cs \<and> distinct fs
       | (CustomType c, Aux a) \<Rightarrow> True
       | _ \<Rightarrow> False)
      \<and> (\<forall>c \<in> set cs. wf_treedef c))"

section \<open>Errors\<close>

text \<open>
  The spec's error kinds. \<open>UnrecognizedStructure\<close> is the \<^verbatim>\<open>ValueError\<close> of
  \<^verbatim>\<open>flatten_one_level\<close>; \<open>StructureMismatch\<close> is the \<^verbatim>\<open>ValueError\<close> of unflatten and of
  flatten-up-to and the \<^verbatim>\<open>TypeError\<close> of \<^verbatim>\<open>tree_transpose\<close>, whose message names the tree's
  treedef and the expected composed one. \<open>AssertionError\<close> is a failed \<^verbatim>\<open>assert\<close> (also the
  one in \<^verbatim>\<open>safe_zip\<close>), \<open>PyTypeError\<close> any other \<^verbatim>\<open>TypeError\<close> (a named-tuple constructor
  called with the wrong number of arguments, a recompose function given auxiliary data of
  another node type, an operand of the wrong type), \<open>IndexError\<close> an index out of range.
\<close>

datatype mismatch = LeafCount | Shape | Composed treedef treedef

datatype error =
    UnrecognizedStructure
  | StructureMismatch mismatch
  | AssertionError
  | PyTypeError
  | IndexError

section \<open>Registries\<close>

text \<open>
  A registry instance of the extension module: whether \<^verbatim>\<open>None\<close> is a node
  (\<^verbatim>\<open>enable_none\<close>), and the user classes registered with \<^verbatim>\<open>register_node\<close>.
\<close>

record registry =
  enable_none :: bool
  node_types :: "string list"

text \<open>The decompose functions the module itself defines: the entries of \<^verbatim>\<open>_registry\<close> and
  the functions it registers for \<^verbatim>\<open>OrderedDict\<close> and \<^verbatim>\<open>defaultdict\<close>.\<close>

definition dict_to_iter :: "(string \<times> 'a pytree) list \<Rightarrow> 'a pytree list \<times> node_data" where
  \<comment> \<open>\<^verbatim>\<open>lambda xs: unzip2(sorted(xs.items()))[::-1]\<close>\<close>
  "dict_to_iter kvs = (map snd (sort_key fst kvs), Keys (map fst (sort_key fst kvs)))"

definition ordereddict_to_iter :: "(string \<times> 'a pytree) list \<Rightarrow> 'a pytree list \<times> node_data" where
  \<comment> \<open>\<^verbatim>\<open>lambda x: (tuple(x.values()), tuple(x.keys()))\<close>\<close>
  "ordereddict_to_iter kvs = (map snd kvs, Keys (map fst kvs))"

definition flatten_defaultdict ::
  "string option \<Rightarrow> (string \<times> 'a pytree) list \<Rightarrow> 'a pytree list \<times> node_data" where
  \<comment> \<open>\<^verbatim>\<open>keys = tuple(sorted(d)); return tuple(d[k] for k in keys), (d.default_factory, keys)\<close>\<close>
  "flatten_defaultdict f kvs =
     (let keys = sort (map fst kvs)
      in (List.map_filter (map_of kvs) keys, FactoryKeys f keys))"

text \<open>Modelled from the spec: \<^verbatim>\<open>PyTreeRegistry.flatten_one_level\<close> of the extension module,
  the registry lookup \<open>decompose_one_level\<close>: \<open>None\<close> for a value of unregistered type, else
  the children and the auxiliary data. The built-in handlers agree with the module's
  \<^verbatim>\<open>_registry\<close> (a dict gives its values in sorted key order and the sorted keys); a named
  tuple gives its elements and its type.\<close>

fun registry_flatten_one_level ::
  "registry \<Rightarrow> 'a pytree \<Rightarrow> ('a pytree list \<times> node_data) option" where
  "registry_flatten_one_level reg (Opaque x) = None"
| "registry_flatten_one_level reg PyNone = (if enable_none reg then Some ([], NoData) else None)"
| "registry_flatten_one_level reg (PyTuple xs) = Some (xs, NoData)"
| "registry_flatten_one_level reg (PyList xs) = Some (xs, NoData)"
| "registry_flatten_one_level reg (PyDict kvs) = Some (dict_to_iter kvs)"
| "registry_flatten_one_level reg (PyOrderedDict kvs) = Some (ordereddict_to_iter kvs)"
| "registry_flatten_one_level reg (PyDefaultDict f kvs) = Some (flatten_defaultdict f kvs)"
| "registry_flatten_one_level reg (PyNamedTuple n fvs) =
     Some (map snd fvs, TypeData (type_of (PyNamedTuple n fvs)))"
| "registry_flatten_one_level reg (PyCustom c a xs) =
     (if c \<in> set (node_types reg) then Some (xs, Aux a) else None)"

lemma size_snd_mem: "(k, v) \<in> set kvs \<Longrightarrow> size v < Suc (size_list (size_prod (\<lambda>x. 0) size) kvs)"
  by (induction kvs) auto

lemma size_mem: "x \<in> set xs \<Longrightarrow> size x < Suc (size_list size xs)"
  by (induction xs) auto

lemma set_map_filter_map_of: "v \<in> set (List.map_filter (map_of kvs) ks) \<Longrightarrow> \<exists>k. (k, v) \<in> set kvs"
  using map_of_SomeD by (fastforce simp: List.map_filter_def)

lemma one_level_size:
  assumes "registry_flatten_one_level reg t = Some (cs, d)" and "c \<in> set cs"
  shows "size c < size t"
proof (cases t)
  case (PyDefaultDict f kvs)
  with assms have "c \<in> set (List.map_filter (map_of kvs) (sort (map fst kvs)))"
    by (simp add: flatten_defaultdict_def Let_def)
  then obtain k where "(k, c) \<in> set kvs"
    using set_map_filter_map_of [of c kvs] by auto
  then show ?thesis
    using PyDefaultDict size_snd_mem [of k c kvs] by simp
next
  case (PyDict kvs)
  with assms obtain k where "(k, c) \<in> set kvs"
    by (auto simp: dict_to_iter_def)
  then show ?thesis
    using PyDict size_snd_mem [of k c kvs] by simp
next
  case (PyOrderedDict kvs)
  with assms obtain k where "(k, c) \<in> set kvs"
    by (auto simp: ordereddict_to_iter_def)
  then show ?thesis
    using PyOrderedDict size_snd_mem [of k c kvs] by simp
next
  case (PyNamedTuple n kvs)
  with assms obtain k where "(k, c) \<in> set kvs"
    by auto
  then show ?thesis
    using PyNamedTuple size_snd_mem [of k c kvs] by simp
qed (use assms size_mem [of c] in \<open>auto split: if_splits\<close>)

section \<open>The flatten/unflatten engine\<close>

text \<open>\<^verbatim>\<open>is_leaf\<close> is an optional predicate; \<^verbatim>\<open>None\<close> stands for no predicate.\<close>

definition leaf_pred :: "('a pytree \<Rightarrow> bool) option \<Rightarrow> 'a pytree \<Rightarrow> bool" where
  "leaf_pred is_leaf t = (case is_leaf of None \<Rightarrow> False | Some p \<Rightarrow> p t)"

text \<open>Modelled from the spec: \<^verbatim>\<open>PyTreeRegistry.flatten\<close> of the extension module. Depth-first,
  left to right; the predicate is checked before the registry lookup; a value of unregistered
  type is a leaf; a node is decomposed, its auxiliary data stored in the treedef node and its
  children flattened in order.\<close>

function flatten ::
  "registry \<Rightarrow> 'a pytree \<Rightarrow> ('a pytree \<Rightarrow> bool) option \<Rightarrow> 'a pytree list \<times> treedef" where
  "flatten reg tree is_leaf =
     (if leaf_pred is_leaf tree then ([tree], LeafDef)
      else case registry_flatten_one_level reg tree of
             None \<Rightarrow> ([tree], LeafDef)
           | Some (children, d) \<Rightarrow>
               (let rs = map (\<lambda>c. flatten reg c is_leaf) children
                in (concat (map fst rs), NodeDef (type_of tree) d (map snd rs))))"
  by pat_completeness auto
termination
  by (relation "measure (\<lambda>(reg, tree, is_leaf). size tree)") (auto dest: one_level_size)

declare flatten.simps [simp del]

text \<open>\<^verbatim>\<open>tree_flatten\<close>, \<^verbatim>\<open>tree_leaves\<close> and \<^verbatim>\<open>tree_structure\<close> call the default registry,
  which is the parameter \<open>reg\<close> of every function below.\<close>

definition tree_flatten ::
  "registry \<Rightarrow> 'a pytree \<Rightarrow> ('a pytree \<Rightarrow> bool) option \<Rightarrow> 'a pytree list \<times> treedef" where
  "tree_flatten reg tree is_leaf = flatten reg tree is_leaf"

definition tree_leaves ::
  "registry \<Rightarrow> 'a pytree \<Rightarrow> ('a pytree \<Rightarrow> bool) option \<Rightarrow> 'a pytree list" where
  "tree_leaves reg tree is_leaf = fst (flatten reg tree is_leaf)"

definition tree_structure ::
  "registry \<Rightarrow> 'a pytree \<Rightarrow> ('a pytree \<Rightarrow> bool) option \<Rightarrow> treedef" where
  "tree_structure reg tree is_leaf = snd (flatten reg tree is_leaf)"

text \<open>The recompose functions: \<^verbatim>\<open>from_iter\<close> of \<^verbatim>\<open>_registry\<close>, the functions registered for
  \<^verbatim>\<open>OrderedDict\<close> and \<^verbatim>\<open>defaultdict\<close> (both zip with \<^verbatim>\<open>safe_zip\<close>, which asserts equal
  lengths, where \<^verbatim>\<open>dict(zip(keys, xs))\<close> truncates), the named-tuple constructor, and the
  \<^verbatim>\<open>unflatten_func\<close> of a registered user class.\<close>

fun make_node :: "pytype \<Rightarrow> node_data \<Rightarrow> 'a pytree list \<Rightarrow> error + 'a pytree" where
  "make_node TupleType d xs = Inr (PyTuple xs)"
| "make_node ListType d xs = Inr (PyList xs)"
| "make_node DictType (Keys keys) xs = Inr (PyDict (zip keys xs))"
| "make_node NoneType d xs = Inr PyNone"
| "make_node OrderedDictType (Keys keys) xs =
     (if length keys = length xs then Inr (PyOrderedDict (zip keys xs)) else Inl AssertionError)"
| "make_node DefaultDictType (FactoryKeys f keys) xs =
     (if length keys = length xs then Inr (PyDefaultDict f (zip keys xs)) else Inl AssertionError)"
| "make_node (NamedTupleType n fs) (TypeData (NamedTupleType n' fs')) xs =
     (if length fs' = length xs then Inr (PyNamedTuple n' (zip fs' xs)) else Inl PyTypeError)"
| "make_node (CustomType c) (Aux a) xs = Inr (PyCustom c a xs)"
| "make_node ty d xs = Inl PyTypeError"

text \<open>Modelled from the spec: \<^verbatim>\<open>PyTreeDef.unflatten\<close> of the extension module. It walks the
  treedef top-down with a cursor into the leaves: a \<open>Leaf\<close> consumes one value, a node
  unflattens its children in order and recomposes them. It fails with \<open>StructureMismatch\<close>
  when the leaves run out, or when some are left at the end.\<close>

fun unflatten_node :: "treedef \<Rightarrow> 'a pytree list \<Rightarrow> error + ('a pytree \<times> 'a pytree list)"
  and unflatten_children ::
    "treedef list \<Rightarrow> 'a pytree list \<Rightarrow> error + ('a pytree list \<times> 'a pytree list)" where
  "unflatten_node LeafDef [] = Inl (StructureMismatch LeafCount)"
| "unflatten_node LeafDef (x # rest) = Inr (x, rest)"
| "unflatten_node (NodeDef ty d cs) leaves =
     (case unflatten_children cs leaves of
        Inl e \<Rightarrow> Inl e
      | Inr (children, rest) \<Rightarrow>
          (case make_node ty d children of
             Inl e \<Rightarrow> Inl e
           | Inr t \<Rightarrow> Inr (t, rest)))"
| "unflatten_children [] leaves = Inr ([], leaves)"
| "unflatten_children (c # cs) leaves =
     (case unflatten_node c leaves of
        Inl e \<Rightarrow> Inl e
      | Inr (t, rest) \<Rightarrow>
          (case unflatten_children cs rest of
             Inl e \<Rightarrow> Inl e
           | Inr (ts, rest') \<Rightarrow> Inr (t # ts, rest')))"

definition unflatten :: "treedef \<Rightarrow> 'a pytree list \<Rightarrow> error + 'a pytree" where
  "unflatten treedef leaves =
     (case unflatten_node treedef leaves of
        Inl e \<Rightarrow> Inl e
      | Inr (t, rest) \<Rightarrow> if rest = [] then Inr t else Inl (StructureMismatch LeafCount))"

definition tree_unflatten :: "treedef \<Rightarrow> 'a pytree list \<Rightarrow> error + 'a pytree" where
  "tree_unflatten treedef leaves = unflatten treedef leaves"

fun treedef_children :: "treedef \<Rightarrow> treedef list" where
  "treedef_children LeafDef = []"
| "treedef_children (NodeDef ty d cs) = cs"

definition treedef_is_leaf :: "treedef \<Rightarrow> bool" where
  "treedef_is_leaf treedef = (num_nodes treedef = 1)"

definition treedef_is_strict_leaf :: "treedef \<Rightarrow> bool" where
  "treedef_is_strict_leaf treedef = (num_nodes treedef = 1 \<and> num_leaves treedef = 1)"


section \<open>Mapping and transposing\<close>

text \<open>Modelled from the spec: \<^verbatim>\<open>PyTreeDef.flatten_up_to\<close> of the extension module. It
  decomposes a value only as far as the treedef branches: at a \<open>Leaf\<close> the value is taken
  whole; at a node the value must be of the node's type, with the same number of children and
  the same auxiliary data, else \<open>StructureMismatch\<close>.\<close>

fun flatten_up_to :: "registry \<Rightarrow> treedef \<Rightarrow> 'a pytree \<Rightarrow> error + 'a pytree list"
  and flatten_up_to_list ::
    "registry \<Rightarrow> treedef list \<Rightarrow> 'a pytree list \<Rightarrow> error + 'a pytree list" where
  "flatten_up_to reg LeafDef t = Inr [t]"
| "flatten_up_to reg (NodeDef ty d cs) t =
     (case registry_flatten_one_level reg t of
        None \<Rightarrow> Inl (StructureMismatch Shape)
      | Some (children, d') \<Rightarrow>
          if type_of t \<noteq> ty \<or> length children \<noteq> length cs \<or> d' \<noteq> d
          then Inl (StructureMismatch Shape)
          else flatten_up_to_list reg cs children)"
| "flatten_up_to_list reg [] [] = Inr []"
| "flatten_up_to_list reg (c # cs) (t # ts) =
     (case flatten_up_to reg c t of
        Inl e \<Rightarrow> Inl e
      | Inr xs \<Rightarrow>
          (case flatten_up_to_list reg cs ts of
             Inl e \<Rightarrow> Inl e
           | Inr ys \<Rightarrow> Inr (xs @ ys)))"
| "flatten_up_to_list reg [] (t # ts) = Inl (StructureMismatch Shape)"
| "flatten_up_to_list reg (c # cs) [] = Inl (StructureMismatch Shape)"

text \<open>Running a sequence of computations that may raise: the first error wins.\<close>

fun collect :: "(error + 'b) list \<Rightarrow> error + 'b list" where
  "collect [] = Inr []"
| "collect (Inl e # rs) = Inl e"
| "collect (Inr x # rs) = (case collect rs of Inl e \<Rightarrow> Inl e | Inr xs \<Rightarrow> Inr (x # xs))"

text \<open>\<^verbatim>\<open>zip(*rows)\<close>: the columns of the rows, as long as the shortest row; no column when
  there is no row.\<close>

function zip_star :: "'b list list \<Rightarrow> 'b list list" where
  "zip_star rows =
     (if rows = [] \<or> [] \<in> set rows then [] else map hd rows # zip_star (map tl rows))"
  by pat_completeness auto
termination
proof (relation "measure (\<lambda>rows. length (hd rows))")
  show "wf (measure (\<lambda>rows. length (hd rows)))" by simp
next
  fix rows :: "'b list list"
  assume "\<not> (rows = [] \<or> [] \<in> set rows)"
  then show "(map tl rows, rows) \<in> measure (\<lambda>rows. length (hd rows))"
    by (cases rows) auto
qed

declare zip_star.simps [simp del]

text \<open>\<^verbatim>\<open>tree_map\<close>. The function \<open>f\<close> takes the tuple of its positional arguments as a list
  and may raise. The generator \<^verbatim>\<open>f(*xs) for xs in zip(*all_leaves)\<close> is consumed by unflatten
  one value at a time, so an error of \<open>f\<close> comes before any error of unflatten.\<close>

definition tree_map ::
  "registry \<Rightarrow> ('a pytree list \<Rightarrow> error + 'a pytree) \<Rightarrow> 'a pytree \<Rightarrow> 'a pytree list \<Rightarrow>
   ('a pytree \<Rightarrow> bool) option \<Rightarrow> error + 'a pytree" where
  "tree_map reg f tree rest is_leaf =
     (case tree_flatten reg tree is_leaf of
        (leaves, treedef) \<Rightarrow>
          (case collect (map (\<lambda>r. flatten_up_to reg treedef r) rest) of
             Inl e \<Rightarrow> Inl e
           | Inr rest_leaves \<Rightarrow>
               (let all_leaves = leaves # rest_leaves
                in case collect (map f (zip_star all_leaves)) of
                     Inl e \<Rightarrow> Inl e
                   | Inr ys \<Rightarrow> unflatten treedef ys)))"

text \<open>\<^verbatim>\<open>[[next(iter_flat) for _ in range(inner_size)] for __ in range(outer_size)]\<close>\<close>

fun take_rows :: "nat \<Rightarrow> nat \<Rightarrow> 'b list \<Rightarrow> 'b list list" where
  "take_rows inner_size 0 flat = []"
| "take_rows inner_size (Suc n) flat =
     take inner_size flat # take_rows inner_size n (drop inner_size flat)"

text \<open>\<^verbatim>\<open>tree_transpose\<close>. With no \<open>inner_treedef\<close>, it is the structure of the first slot of
  the tree flattened up to \<open>outer_treedef\<close> (an \<^verbatim>\<open>IndexError\<close> when there is no slot).\<close>

definition tree_transpose ::
  "registry \<Rightarrow> treedef \<Rightarrow> treedef option \<Rightarrow> 'a pytree \<Rightarrow> error + 'a pytree" where
  "tree_transpose reg outer_treedef inner_treedef pytree_to_transpose =
     (case tree_flatten reg pytree_to_transpose None of
        (flat, treedef) \<Rightarrow>
          (case (case inner_treedef of
                   Some inner \<Rightarrow> Inr inner
                 | None \<Rightarrow>
                     (case flatten_up_to reg outer_treedef pytree_to_transpose of
                        Inl e \<Rightarrow> Inl e
                      | Inr [] \<Rightarrow> Inl IndexError
                      | Inr (x # xs) \<Rightarrow> Inr (tree_structure reg x None))) of
             Inl e \<Rightarrow> Inl e
           | Inr inner \<Rightarrow>
               (let inner_size = num_leaves inner;
                    outer_size = num_leaves outer_treedef
                in if num_leaves treedef \<noteq> inner_size * outer_size
                   then Inl (StructureMismatch (Composed treedef (compose outer_treedef inner)))
                   else
                     (let lol = take_rows inner_size outer_size flat;
                          transposed_lol = zip_star lol
                      in case collect (map (tree_unflatten outer_treedef) transposed_lol) of
                           Inl e \<Rightarrow> Inl e
                         | Inr subtrees \<Rightarrow> tree_unflatten inner subtrees))))"

section \<open>Key paths\<close>

datatype key_entry =
    SequenceKey nat
  | DictKey string
  | GetAttrKey string
  | FlattenedIndexKey nat

text \<open>\<^verbatim>\<open>_registry_with_keypaths.get(type(tree))\<close>, applied to the tree when there is a handler.
  \<^verbatim>\<open>_register_keypaths\<close> zips the keys its handler gives with the children that
  \<^verbatim>\<open>_registry[ty].to_iter\<close> gives. The handlers of \<^verbatim>\<open>tuple\<close> and \<^verbatim>\<open>list\<close> give the indices, that
  of \<^verbatim>\<open>dict\<close> the sorted keys, those of \<^verbatim>\<open>defaultdict\<close> and \<^verbatim>\<open>OrderedDict\<close> the keys in the
  order of \<^verbatim>\<open>x.keys()\<close>. A named tuple's class is not \<^verbatim>\<open>tuple\<close>, so it has no handler; neither
  has \<^verbatim>\<open>None\<close> nor a class registered with \<^verbatim>\<open>register_pytree_node\<close>.\<close>

fun flatten_with_keys :: "'a pytree \<Rightarrow> ((key_entry \<times> 'a pytree) list \<times> node_data) option" where
  "flatten_with_keys (PyTuple xs) = Some (zip (map SequenceKey [0..<length xs]) xs, NoData)"
| "flatten_with_keys (PyList xs) = Some (zip (map SequenceKey [0..<length xs]) xs, NoData)"
| "flatten_with_keys (PyDict kvs) =
     (case dict_to_iter kvs of
        (children, treedef) \<Rightarrow> Some (zip (map DictKey (sort (map fst kvs))) children, treedef))"
| "flatten_with_keys (PyDefaultDict f kvs) =
     (case flatten_defaultdict f kvs of
        (children, treedef) \<Rightarrow> Some (zip (map DictKey (map fst kvs)) children, treedef))"
| "flatten_with_keys (PyOrderedDict kvs) =
     (case ordereddict_to_iter kvs of
        (children, treedef) \<Rightarrow> Some (zip (map DictKey (map fst kvs)) children, treedef))"
| "flatten_with_keys t = None"

text \<open>\<^verbatim>\<open>isinstance(tree, tuple) and hasattr(tree, '_fields')\<close>\<close>

fun is_namedtuple :: "'a pytree \<Rightarrow> bool" where
  "is_namedtuple (PyNamedTuple n fvs) = True"
| "is_namedtuple t = False"

text \<open>\<^verbatim>\<open>[(GetAttrKey(s), getattr(tree, s)) for s in tree._fields]\<close>\<close>

fun namedtuple_key_children :: "'a pytree \<Rightarrow> (key_entry \<times> 'a pytree) list" where
  "namedtuple_key_children (PyNamedTuple n fvs) =
     List.map_filter (\<lambda>s. map_option (\<lambda>v. (GetAttrKey s, v)) (map_of fvs s)) (map fst fvs)"
| "namedtuple_key_children t = []"

lemma flatten_with_keys_size:
  assumes "flatten_with_keys t = Some (kcs, d)" and "(k, c) \<in> set kcs"
  shows "size c < size t"
proof -
  have "\<exists>cs. registry_flatten_one_level reg t = Some (cs, d) \<and> c \<in> set cs" for reg
    using assms by (cases t) (auto split: prod.splits dest: set_zip_rightD)
  then show ?thesis
    using one_level_size by blast
qed

lemma one_level_size_nth:
  "registry_flatten_one_level reg t = Some (cs, d) \<Longrightarrow> i < length cs \<Longrightarrow> size (cs ! i) < size t"
  using one_level_size [of reg t cs d "cs ! i"] by simp

lemma namedtuple_key_children_size:
  assumes "(k, c) \<in> set (namedtuple_key_children t)"
  shows "size c < size t"
proof (cases t)
  case (PyNamedTuple n fvs)
  with assms obtain s where "map_of fvs s = Some c"
    by (auto simp: List.map_filter_def)
  then have "(s, c) \<in> set fvs"
    by (rule map_of_SomeD)
  then show ?thesis
    using PyNamedTuple size_snd_mem [of s c fvs] by simp
qed (use assms in auto)

text \<open>\<^verbatim>\<open>_generate_key_paths_\<close>. The generator becomes the list of what it yields.\<close>

function generate_key_paths_impl ::
  "registry \<Rightarrow> key_entry list \<Rightarrow> 'a pytree \<Rightarrow> ('a pytree \<Rightarrow> bool) option \<Rightarrow>
   (key_entry list \<times> 'a pytree) list" where
  "generate_key_paths_impl reg key_path tree is_leaf =
     (if leaf_pred is_leaf tree then [(key_path, tree)]
      else case flatten_with_keys tree of
             Some (key_children, d) \<Rightarrow>
               concat (map (\<lambda>(k, c). generate_key_paths_impl reg (key_path @ [k]) c is_leaf)
                           key_children)
           | None \<Rightarrow>
               (case registry_flatten_one_level reg tree of
                  None \<Rightarrow> [(key_path, tree)]
                | Some (children, d) \<Rightarrow>
                    if is_namedtuple tree \<and> d = TypeData (type_of tree)
                    then concat (map (\<lambda>(k, c).
                                   generate_key_paths_impl reg (key_path @ [k]) c is_leaf)
                                 (namedtuple_key_children tree))
                    else concat (map (\<lambda>(i, c).
                                   generate_key_paths_impl reg
                                     (key_path @ [FlattenedIndexKey i]) c is_leaf)
                                 (enumerate 0 children))))"
  by pat_completeness auto
termination
  by (relation "measure (\<lambda>(reg, key_path, tree, is_leaf). size tree)")
     (auto dest: flatten_with_keys_size namedtuple_key_children_size one_level_size_nth
           simp: in_set_enumerate_eq)

declare generate_key_paths_impl.simps [simp del]

definition generate_key_paths ::
  "registry \<Rightarrow> 'a pytree \<Rightarrow> ('a pytree \<Rightarrow> bool) option \<Rightarrow> (key_entry list \<times> 'a pytree) list" where
  "generate_key_paths reg tree is_leaf = generate_key_paths_impl reg [] tree is_leaf"

section \<open>Structural diagnostics\<close>

text \<open>\<^verbatim>\<open>flatten_one_level\<close>, the strict one-level decomposition: it raises where the registry
  lookup gives \<^verbatim>\<open>None\<close>.\<close>

definition flatten_one_level :: "registry \<Rightarrow> 'a pytree \<Rightarrow> error + ('a pytree list \<times> node_data)" where
  "flatten_one_level reg pytree =
     (case registry_flatten_one_level reg pytree of
        None \<Rightarrow> Inl UnrecognizedStructure
      | Some out \<Rightarrow> Inr out)"

text \<open>\<^verbatim>\<open>isinstance(t, (list, tuple))\<close> holds of named tuples too; \<^verbatim>\<open>len(t)\<close>.\<close>

fun is_list_or_tuple :: "'a pytree \<Rightarrow> bool" where
  "is_list_or_tuple (PyTuple xs) = True"
| "is_list_or_tuple (PyList xs) = True"
| "is_list_or_tuple (PyNamedTuple n fvs) = True"
| "is_list_or_tuple t = False"

fun py_len :: "'a pytree \<Rightarrow> nat" where
  "py_len (PyTuple xs) = length xs"
| "py_len (PyList xs) = length xs"
| "py_len (PyNamedTuple n fvs) = length fvs"
| "py_len (PyDict kvs) = length kvs"
| "py_len (PyOrderedDict kvs) = length kvs"
| "py_len (PyDefaultDict f kvs) = length kvs"
| "py_len t = 0"

text \<open>\<^verbatim>\<open>pytree._fields\<close>\<close>

fun namedtuple_fields :: "'a pytree \<Rightarrow> string list" where
  "namedtuple_fields (PyNamedTuple n fvs) = map fst fvs"
| "namedtuple_fields t = []"

text \<open>\<^verbatim>\<open>_child_keys\<close>\<close>

definition child_keys :: "registry \<Rightarrow> 'a pytree \<Rightarrow> error + key_entry list" where
  "child_keys reg pytree =
     (if treedef_is_strict_leaf (tree_structure reg pytree None) then Inl AssertionError
      else case flatten_with_keys pytree of
             Some (key_children, d) \<Rightarrow> Inr (map fst key_children)
           | None \<Rightarrow>
               if is_namedtuple pytree then Inr (map GetAttrKey (namedtuple_fields pytree))
               else Inr (map FlattenedIndexKey
                          [0..<length (treedef_children (tree_structure reg pytree None))]))"

text \<open>The symmetric difference of two key sets, as a list (a Python set has no order to keep).
  In \<^verbatim>\<open>_equality_errors\<close> the difference is rendered through \<^verbatim>\<open>k.key\<close>, an attribute only
  \<^verbatim>\<open>DictKey\<close> and \<^verbatim>\<open>FlattenedIndexKey\<close> have; the bare \<^verbatim>\<open>except\<close> then leaves it empty.\<close>

definition symmetric_difference :: "key_entry list \<Rightarrow> key_entry list \<Rightarrow> key_entry list" where
  "symmetric_difference ks1 ks2 =
     filter (\<lambda>k. k \<notin> set ks2) (remdups ks1) @ filter (\<lambda>k. k \<notin> set ks1) (remdups ks2)"

fun has_key_attr :: "key_entry \<Rightarrow> bool" where
  "has_key_attr (DictKey k) = True"
| "has_key_attr (FlattenedIndexKey i) = True"
| "has_key_attr k = False"

definition rendered_difference :: "key_entry list \<Rightarrow> key_entry list \<Rightarrow> key_entry list" where
  "rendered_difference ks1 ks2 =
     (let diff = symmetric_difference ks1 ks2
      in if list_all has_key_attr diff then diff else [])"

text \<open>What \<^verbatim>\<open>_equality_errors\<close> yields: the key path, a description of each side, and the
  explanation. The strings become data: the type, the length, the number of children, the
  metadata.\<close>

datatype descr =
    TypeDescr pytype
  | LengthDescr pytype nat
  | ChildrenDescr pytype nat
  | MetadataDescr pytype node_data

datatype explanation =
    TypesDiffer
  | LengthsDoNotMatch
  | ChildrenDoNotMatch "key_entry list"
  | MetadataDoesNotMatch

type_synonym equality_error = "key_entry list \<times> descr \<times> descr \<times> explanation"

lemma flatten_one_level_size:
  assumes "flatten_one_level reg t = Inr (cs, d)" and "(k, c, c') \<in> set (zip ks (zip cs cs'))"
  shows "size c < size t"
proof -
  from assms(2) have "(c, c') \<in> set (zip cs cs')"
    by (rule set_zip_rightD)
  then have "c \<in> set cs"
    by (rule set_zip_leftD)
  moreover from assms(1) have "registry_flatten_one_level reg t = Some (cs, d)"
    by (simp add: flatten_one_level_def split: option.splits)
  ultimately show ?thesis
    by (rule one_level_size [rotated])
qed

text \<open>\<^verbatim>\<open>_equality_errors\<close>. The generator becomes the list of what it yields, or the error
  that ends it.\<close>

function equality_errors_impl ::
  "registry \<Rightarrow> key_entry list \<Rightarrow> 'a pytree \<Rightarrow> 'a pytree \<Rightarrow> ('a pytree \<Rightarrow> bool) option \<Rightarrow>
   error + equality_error list" where
  "equality_errors_impl reg path t1 t2 is_leaf =
     (if treedef_is_strict_leaf (tree_structure reg t1 is_leaf) \<and>
         treedef_is_strict_leaf (tree_structure reg t2 is_leaf) then Inr []
      else if type_of t1 \<noteq> type_of t2 then
        Inr [(path, TypeDescr (type_of t1), TypeDescr (type_of t2), TypesDiffer)]
      else if is_list_or_tuple t1 \<and> py_len t1 \<noteq> py_len t2 then
        Inr [(path, LengthDescr (type_of t1) (py_len t1), LengthDescr (type_of t2) (py_len t2),
              LengthsDoNotMatch)]
      else
        (case flatten_one_level reg t1 of Inl e \<Rightarrow> Inl e | Inr (t1_children, t1_meta) \<Rightarrow>
        (case flatten_one_level reg t2 of Inl e \<Rightarrow> Inl e | Inr (t2_children, t2_meta) \<Rightarrow>
        (case child_keys reg t1 of Inl e \<Rightarrow> Inl e | Inr t1_keys \<Rightarrow>
        (case child_keys reg t2 of Inl e \<Rightarrow> Inl e | Inr t2_keys \<Rightarrow>
          if length t1_children \<noteq> length t2_children then
            Inr [(path, ChildrenDescr (type_of t1) (length t1_children),
                  ChildrenDescr (type_of t2) (length t2_children),
                  ChildrenDoNotMatch (rendered_difference t1_keys t2_keys))]
          else if t1_meta \<noteq> t2_meta then
            Inr [(path, MetadataDescr (type_of t1) t1_meta, MetadataDescr (type_of t2) t2_meta,
                  MetadataDoesNotMatch)]
          else if t1_keys \<noteq> t2_keys then Inl AssertionError
          else
            (case collect (map (\<lambda>(k, c1, c2). equality_errors_impl reg (path @ [k]) c1 c2 is_leaf)
                               (zip t1_keys (zip t1_children t2_children))) of
               Inl e \<Rightarrow> Inl e
             | Inr errs \<Rightarrow> Inr (concat errs)))))))"
  by pat_completeness auto
termination
  by (relation "measure (\<lambda>(reg, path, t1, t2, is_leaf). size t1)")
     (auto dest: flatten_one_level_size)

declare equality_errors_impl.simps [simp del]

definition equality_errors ::
  "registry \<Rightarrow> 'a pytree \<Rightarrow> 'a pytree \<Rightarrow> ('a pytree \<Rightarrow> bool) option \<Rightarrow>
   error + equality_error list" where
  "equality_errors reg tree1 tree2 is_leaf = equality_errors_impl reg [] tree1 tree2 is_leaf"

text \<open>What \<^verbatim>\<open>_prefix_error\<close> yields: functions from the caller's name for the tree to a
  \<^verbatim>\<open>ValueError\<close>. The data each message is built from is kept, the name left out.\<close>

datatype prefix_error =
    DifferentTypes "key_entry list" pytype pytype
  | DifferentLengths "key_entry list" pytype nat nat
  | DifferentChildren "key_entry list" pytype "key_entry list" "key_entry list" "key_entry list"
  | DifferentMetadata "key_entry list" pytype node_data node_data

text \<open>\<^verbatim>\<open>_prefix_error\<close>. The recursive call passes no \<^verbatim>\<open>is_leaf\<close>, as the source does.\<close>

function prefix_error_impl ::
  "registry \<Rightarrow> key_entry list \<Rightarrow> 'a pytree \<Rightarrow> 'a pytree \<Rightarrow> ('a pytree \<Rightarrow> bool) option \<Rightarrow>
   error + prefix_error list" where
  "prefix_error_impl reg key_path prefix_tree full_tree is_leaf =
     (if treedef_is_strict_leaf (tree_structure reg prefix_tree is_leaf) then Inr []
      else if type_of prefix_tree \<noteq> type_of full_tree then
        Inr [DifferentTypes key_path (type_of prefix_tree) (type_of full_tree)]
      else
        (case flatten_one_level reg prefix_tree of
           Inl e \<Rightarrow> Inl e | Inr (prefix_tree_children, prefix_tree_meta) \<Rightarrow>
        (case flatten_one_level reg full_tree of
           Inl e \<Rightarrow> Inl e | Inr (full_tree_children, full_tree_meta) \<Rightarrow>
        (case child_keys reg prefix_tree of Inl e \<Rightarrow> Inl e | Inr prefix_tree_keys \<Rightarrow>
        (case child_keys reg full_tree of Inl e \<Rightarrow> Inl e | Inr full_tree_keys \<Rightarrow>
          if is_list_or_tuple prefix_tree \<and> py_len prefix_tree \<noteq> py_len full_tree then
            Inr [DifferentLengths key_path (type_of prefix_tree)
                   (py_len prefix_tree) (py_len full_tree)]
          else if \<not> is_list_or_tuple prefix_tree \<and>
                  length prefix_tree_children \<noteq> length full_tree_children then
            Inr [DifferentChildren key_path (type_of prefix_tree) prefix_tree_keys full_tree_keys
                   (symmetric_difference prefix_tree_keys full_tree_keys)]
          else if prefix_tree_meta \<noteq> full_tree_meta then
            Inr [DifferentMetadata key_path (type_of prefix_tree) prefix_tree_meta full_tree_meta]
          else if prefix_tree_keys \<noteq> full_tree_keys then Inl AssertionError
          else
            (case collect (map (\<lambda>(k, t1, t2). prefix_error_impl reg (key_path @ [k]) t1 t2 None)
                               (zip prefix_tree_keys
                                  (zip prefix_tree_children full_tree_children))) of
               Inl e \<Rightarrow> Inl e
             | Inr errs \<Rightarrow> Inr (concat errs)))))))"
  by pat_completeness auto
termination
  by (relation "measure (\<lambda>(reg, key_path, prefix_tree, full_tree, is_leaf). size prefix_tree)")
     (auto dest: flatten_one_level_size)

declare prefix_error_impl.simps [simp del]

definition prefix_errors ::
  "registry \<Rightarrow> 'a pytree \<Rightarrow> 'a pytree \<Rightarrow> ('a pytree \<Rightarrow> bool) option \<Rightarrow>
   error + prefix_error list" where
  "prefix_errors reg prefix_tree full_tree is_leaf =
     prefix_error_impl reg [] prefix_tree full_tree is_leaf"

section \<open>The registries of the module\<close>

text \<open>The three registry instances and the user classes of the Python-side \<^verbatim>\<open>_registry\<close>.
  \<^verbatim>\<open>default_registry\<close> and \<^verbatim>\<open>dispatch_registry\<close> have \<^verbatim>\<open>None\<close> as a node,
  \<^verbatim>\<open>none_leaf_registry\<close> has it as a leaf. \<^verbatim>\<open>register_pytree_node\<close> registers a class in all
  four at once.\<close>

record module_state =
  default_registry :: registry
  none_leaf_registry :: registry
  dispatch_registry :: registry
  py_registry :: "string list"

definition initial_state :: module_state where
  "initial_state =
     \<lparr>default_registry = \<lparr>enable_none = True, node_types = []\<rparr>,
      none_leaf_registry = \<lparr>enable_none = False, node_types = []\<rparr>,
      dispatch_registry = \<lparr>enable_none = True, node_types = []\<rparr>,
      py_registry = []\<rparr>"

definition register_node :: "string \<Rightarrow> registry \<Rightarrow> registry" where
  "register_node nodetype reg = reg\<lparr>node_types := nodetype # node_types reg\<rparr>"

definition register_pytree_node :: "string \<Rightarrow> module_state \<Rightarrow> module_state" where
  "register_pytree_node nodetype s =
     s\<lparr>default_registry := register_node nodetype (default_registry s),
       none_leaf_registry := register_node nodetype (none_leaf_registry s),
       dispatch_registry := register_node nodetype (dispatch_registry s),
       py_registry := nodetype # py_registry s\<rparr>"

text \<open>Whether a registry has a type registered as a node type.\<close>

fun registered :: "registry \<Rightarrow> pytype \<Rightarrow> bool" where
  "registered reg NoneType = enable_none reg"
| "registered reg (CustomType c) = (c \<in> set (node_types reg))"
| "registered reg OpaqueType = False"
| "registered reg ty = True"

text \<open>The state of the module once it is imported and the given user classes are registered
  (the last of the list first).\<close>

definition after_registering :: "string list \<Rightarrow> module_state" where
  "after_registering classes = foldr register_pytree_node classes initial_state"

section \<open>Basic facts about the engine\<close>

lemma num_nodes_pos: "0 < num_nodes td"
  by (cases td) auto

lemma single_node_cases: "num_nodes td = 1 \<longleftrightarrow> td = LeafDef \<or> (\<exists>ty d. td = NodeDef ty d [])"
proof (cases td)
  case LeafDef
  then show ?thesis by simp
next
  case (NodeDef ty d cs)
  show ?thesis
  proof (cases cs)
    case Nil
    with NodeDef show ?thesis by simp
  next
    case (Cons c cs')
    with NodeDef num_nodes_pos [of c] show ?thesis by simp
  qed
qed

lemma flatten_leaf: "leaf_pred is_leaf t \<Longrightarrow> flatten reg t is_leaf = ([t], LeafDef)"
  by (simp add: flatten.simps)

lemma flatten_unregistered:
  "registry_flatten_one_level reg t = None \<Longrightarrow> flatten reg t is_leaf = ([t], LeafDef)"
  by (simp add: flatten.simps)

lemma flatten_node:
  "\<not> leaf_pred is_leaf t \<Longrightarrow> registry_flatten_one_level reg t = Some (cs, d) \<Longrightarrow>
   flatten reg t is_leaf =
     (concat (map (\<lambda>c. fst (flatten reg c is_leaf)) cs),
      NodeDef (type_of t) d (map (\<lambda>c. snd (flatten reg c is_leaf)) cs))"
  by (subst flatten.simps) (simp add: Let_def comp_def)

lemma tree_structure_empty:
  "registry_flatten_one_level reg t = Some ([], d) \<Longrightarrow>
   tree_structure reg t None = NodeDef (type_of t) d []"
  by (simp add: tree_structure_def flatten_node leaf_pred_def)

section \<open>Leaf treedefs\<close>

text \<open>
  Claim C10. \<^verbatim>\<open>treedef_is_leaf\<close> holds exactly of the treedefs with a single node, so it holds
  of a single node without leaves, such as the structure of \<^verbatim>\<open>None\<close> or of the empty tuple;
  \<^verbatim>\<open>treedef_is_strict_leaf\<close> asks for exactly one leaf too, and the two predicates differ
  exactly on the single-node treedefs without leaves.
\<close>

theorem treedef_is_leaf_single_node:
  "(treedef_is_leaf td \<longleftrightarrow> num_nodes td = 1) \<and>
   (treedef_is_strict_leaf td \<longleftrightarrow> treedef_is_leaf td \<and> num_leaves td = 1) \<and>
   (treedef_is_leaf td \<noteq> treedef_is_strict_leaf td \<longleftrightarrow> num_nodes td = 1 \<and> num_leaves td = 0) \<and>
   (let none_def = tree_structure (default_registry initial_state) (PyNone :: 'a pytree) None;
        empty_def = tree_structure (default_registry initial_state) (PyTuple [] :: 'a pytree) None
    in treedef_is_leaf none_def \<and> num_leaves none_def = 0 \<and> \<not> treedef_is_strict_leaf none_def \<and>
       treedef_is_leaf empty_def \<and> num_leaves empty_def = 0 \<and> \<not> treedef_is_strict_leaf empty_def)"
proof -
  have a: "treedef_is_leaf td \<noteq> treedef_is_strict_leaf td \<longleftrightarrow> num_nodes td = 1 \<and> num_leaves td = 0"
    using single_node_cases [of td]
    by (auto simp: treedef_is_leaf_def treedef_is_strict_leaf_def)
  have b: "tree_structure (default_registry initial_state) (PyNone :: 'a pytree) None
             = NodeDef NoneType NoData []"
    using tree_structure_empty [of "default_registry initial_state" "PyNone :: 'a pytree" NoData]
    by (simp add: initial_state_def)
  have c: "tree_structure (default_registry initial_state) (PyTuple [] :: 'a pytree) None
             = NodeDef TupleType NoData []"
    using tree_structure_empty [of "default_registry initial_state" "PyTuple [] :: 'a pytree" NoData]
    by simp
  show ?thesis
    unfolding Let_def b c using a
    by (simp add: treedef_is_leaf_def treedef_is_strict_leaf_def)
qed

theorem treedef_is_leaf_single_node_witness:
  "treedef_is_leaf (NodeDef DictType (Keys []) []) \<and>
   \<not> treedef_is_strict_leaf (NodeDef DictType (Keys []) []) \<and>
   num_leaves (NodeDef DictType (Keys []) []) = 0 \<and>
   treedef_is_leaf LeafDef \<and> treedef_is_strict_leaf LeafDef \<and>
   \<not> treedef_is_leaf (NodeDef ListType NoData [LeafDef])"
  using treedef_is_leaf_single_node [of "NodeDef DictType (Keys []) []", where 'a = int]
    treedef_is_leaf_single_node [of LeafDef, where 'a = int]
    treedef_is_leaf_single_node [of "NodeDef ListType NoData [LeafDef]", where 'a = int]
  by simp

section \<open>The strict one-level decomposition\<close>

lemma registered_iff:
  "registry_flatten_one_level reg t = None \<longleftrightarrow> \<not> registered reg (type_of t)"
  by (cases t) auto

lemma after_registering_registries:
  "node_types (default_registry (after_registering cs)) = cs \<and>
   node_types (none_leaf_registry (after_registering cs)) = cs \<and>
   node_types (dispatch_registry (after_registering cs)) = cs \<and>
   enable_none (default_registry (after_registering cs)) \<and>
   \<not> enable_none (none_leaf_registry (after_registering cs)) \<and>
   enable_none (dispatch_registry (after_registering cs))"
  by (induction cs)
     (simp_all add: after_registering_def initial_state_def register_pytree_node_def
        register_node_def)

lemma registered_default_largest:
  "registered (none_leaf_registry (after_registering cs)) ty \<or>
   registered (dispatch_registry (after_registering cs)) ty \<Longrightarrow>
   registered (default_registry (after_registering cs)) ty"
  using after_registering_registries [of cs] by (cases ty) auto

text \<open>
  In the states the module reaches through \<^verbatim>\<open>register_pytree_node\<close> the three registries
  hold the same classes, and there "registered in no registry" and "not registered in the
  default registry" are the same condition.
\<close>

lemma flatten_one_level_after_registering:
  "flatten_one_level (default_registry (after_registering cs)) t = Inl UnrecognizedStructure \<longleftrightarrow>
     \<not> registered (default_registry (after_registering cs)) (type_of t) \<and>
     \<not> registered (none_leaf_registry (after_registering cs)) (type_of t) \<and>
     \<not> registered (dispatch_registry (after_registering cs)) (type_of t)"
  using registered_iff [of "default_registry (after_registering cs)" t]
    registered_default_largest [of cs "type_of t"]
  by (auto simp: flatten_one_level_def split: option.splits)





section \<open>The leaf count\<close>

lemma flatten_num_leaves:
  "num_leaves (snd (flatten reg t is_leaf)) = length (fst (flatten reg t is_leaf))"
proof (induction reg t is_leaf rule: flatten.induct)
  case (1 reg tree is_leaf)
  show ?case
  proof (cases "leaf_pred is_leaf tree")
    case True
    then show ?thesis by (simp add: flatten_leaf)
  next
    case notleaf: False
    show ?thesis
    proof (cases "registry_flatten_one_level reg tree")
      case None
      then show ?thesis by (simp add: flatten_unregistered)
    next
      case (Some p)
      obtain cs d where p: "p = (cs, d)" by (cases p)
      have ih: "num_leaves (snd (flatten reg c is_leaf)) = length (fst (flatten reg c is_leaf))"
        if "c \<in> set cs" for c
        using "1.IH" [OF notleaf Some p [symmetric] that] .
      have "sum_list (map (\<lambda>c. num_leaves (snd (flatten reg c is_leaf))) cs)
            = sum_list (map (\<lambda>c. length (fst (flatten reg c is_leaf))) cs)"
        using ih by (intro arg_cong [where f = sum_list] map_cong) auto
      then show ?thesis
        using notleaf Some p by (simp add: flatten_node length_concat comp_def)
    qed
  qed
qed

lemma make_node_wf:
  "wf_treedef (NodeDef ty d cs) \<Longrightarrow> length ts = length cs \<Longrightarrow> \<exists>t. make_node ty d ts = Inr t"
  by (cases ty; cases d) auto

lemma unflatten_enough:
  "wf_treedef td \<Longrightarrow> num_leaves td \<le> length (ls :: 'a pytree list) \<Longrightarrow>
     \<exists>t. unflatten_node td ls = Inr (t, drop (num_leaves td) ls)"
  "(\<forall>c \<in> set cs. wf_treedef c) \<Longrightarrow> sum_list (map num_leaves cs) \<le> length ls \<Longrightarrow>
     \<exists>ts. unflatten_children cs ls = Inr (ts, drop (sum_list (map num_leaves cs)) ls) \<and>
          length ts = length cs"
proof (induction td ls and cs ls rule: unflatten_node_unflatten_children.induct)
  case 1
  then show ?case by simp
next
  case (2 x rest)
  then show ?case by simp
next
  case (3 ty d cs leaves)
  from "3.prems" have "\<forall>c \<in> set cs. wf_treedef c" by simp
  with "3.IH" "3.prems" obtain ts where
    ts: "unflatten_children cs leaves = Inr (ts, drop (sum_list (map num_leaves cs)) leaves)"
    "length ts = length cs"
    by auto
  from make_node_wf [OF "3.prems"(1) ts(2)] obtain t where "make_node ty d ts = Inr t" ..
  with ts show ?case by simp
next
  case (4 leaves)
  then show ?case by simp
next
  case (5 c cs leaves)
  from "5.prems" have wf: "wf_treedef c" "\<forall>c \<in> set cs. wf_treedef c"
    and len: "num_leaves c \<le> length leaves"
      "sum_list (map num_leaves cs) \<le> length (drop (num_leaves c) leaves)"
    by auto
  from "5.IH"(1) [OF wf(1) len(1)] obtain t where
    t: "unflatten_node c leaves = Inr (t, drop (num_leaves c) leaves)" ..
  from "5.IH"(2) [OF t refl wf(2) len(2)] obtain ts where
    "unflatten_children cs (drop (num_leaves c) leaves)
       = Inr (ts, drop (sum_list (map num_leaves cs)) (drop (num_leaves c) leaves))"
    "length ts = length cs"
    by auto
  with t show ?case by (simp add: add.commute)
qed

lemma unflatten_short:
  "wf_treedef td \<Longrightarrow> length (ls :: 'a pytree list) < num_leaves td \<Longrightarrow>
     unflatten_node td ls = Inl (StructureMismatch LeafCount)"
  "(\<forall>c \<in> set cs. wf_treedef c) \<Longrightarrow> length ls < sum_list (map num_leaves cs) \<Longrightarrow>
     unflatten_children cs ls = Inl (StructureMismatch LeafCount)"
proof (induction td ls and cs ls rule: unflatten_node_unflatten_children.induct)
  case (3 ty d cs leaves)
  then show ?case by simp
next
  case (5 c cs leaves)
  from "5.prems" have wf: "wf_treedef c" "\<forall>c \<in> set cs. wf_treedef c" by auto
  show ?case
  proof (cases "length leaves < num_leaves c")
    case True
    with "5.IH"(1) wf show ?thesis by simp
  next
    case False
    then have "num_leaves c \<le> length leaves" by simp
    from unflatten_enough(1) [OF wf(1) this] obtain t where
      t: "unflatten_node c leaves = Inr (t, drop (num_leaves c) leaves)" ..
    from False "5.prems"(2)
    have "length (drop (num_leaves c) leaves) < sum_list (map num_leaves cs)" by simp
    from "5.IH"(2) [OF t refl wf(2) this] t show ?thesis by simp
  qed
qed simp_all

lemma unflatten_iff:
  assumes "wf_treedef td"
  shows "unflatten td leaves = Inl (StructureMismatch LeafCount) \<longleftrightarrow> length leaves \<noteq> num_leaves td"
    and "(\<exists>t. unflatten td leaves = Inr t) \<longleftrightarrow> length leaves = num_leaves td"
proof -
  consider "length leaves < num_leaves td" | "length leaves = num_leaves td"
    | "num_leaves td < length leaves" by linarith
  then have "(unflatten td leaves = Inl (StructureMismatch LeafCount) \<longleftrightarrow> length leaves \<noteq> num_leaves td)
    \<and> ((\<exists>t. unflatten td leaves = Inr t) \<longleftrightarrow> length leaves = num_leaves td)"
  proof cases
    case 1
    with unflatten_short(1) [OF assms, of leaves] show ?thesis by (simp add: unflatten_def)
  next
    case 2
    with unflatten_enough(1) [OF assms, of leaves] show ?thesis by (auto simp: unflatten_def)
  next
    case 3
    with unflatten_enough(1) [OF assms, of leaves] show ?thesis by (auto simp: unflatten_def)
  qed
  then show "unflatten td leaves = Inl (StructureMismatch LeafCount) \<longleftrightarrow> length leaves \<noteq> num_leaves td"
    and "(\<exists>t. unflatten td leaves = Inr t) \<longleftrightarrow> length leaves = num_leaves td" by blast+
qed


text \<open>
  Claim C2. For a treedef whose nodes have as many keys as children, unflattening fails with
  \<open>StructureMismatch\<close> exactly when the number of leaves given is not \<open>num_leaves\<close> of the
  treedef, and returns a tree exactly when it is; and the treedef that flattening returns has as
  many leaves as the list of leaves returned with it.
\<close>

theorem leaf_count_invariant:
  "(wf_treedef td \<longrightarrow>
      (tree_unflatten td leaves = Inl (StructureMismatch LeafCount) \<longleftrightarrow> length leaves \<noteq> num_leaves td) \<and>
      ((\<exists>t. tree_unflatten td leaves = Inr t) \<longleftrightarrow> length leaves = num_leaves td)) \<and>
   (tree_flatten reg tree is_leaf = (ls, treedef) \<longrightarrow> num_leaves treedef = length ls)"
proof -
  have "num_leaves treedef = length ls" if "tree_flatten reg tree is_leaf = (ls, treedef)"
    using that flatten_num_leaves [of reg tree is_leaf] by (simp add: tree_flatten_def)
  then show ?thesis
    using unflatten_iff [of td leaves] by (simp add: tree_unflatten_def)
qed

theorem leaf_count_invariant_witness:
  "wf_treedef (NodeDef ListType NoData [LeafDef, NodeDef TupleType NoData [LeafDef, LeafDef]]) \<and>
   tree_unflatten (NodeDef ListType NoData [LeafDef, NodeDef TupleType NoData [LeafDef, LeafDef]])
     [Opaque (1::int), Opaque 2] = Inl (StructureMismatch LeafCount) \<and>
   tree_unflatten (NodeDef ListType NoData [LeafDef, NodeDef TupleType NoData [LeafDef, LeafDef]])
     [Opaque (1::int), Opaque 2, Opaque 3] = Inr (PyList [Opaque 1, PyTuple [Opaque 2, Opaque 3]]) \<and>
   tree_flatten \<lparr>enable_none = True, node_types = []\<rparr>
     (PyList [Opaque (1::int), PyTuple [Opaque 2, Opaque 3]]) None
     = ([Opaque 1, Opaque 2, Opaque 3],
        NodeDef ListType NoData [LeafDef, NodeDef TupleType NoData [LeafDef, LeafDef]]) \<and>
   num_leaves (NodeDef ListType NoData [LeafDef, NodeDef TupleType NoData [LeafDef, LeafDef]])
     = length [Opaque (1::int), Opaque 2, Opaque 3]"
proof -
  let ?td = "NodeDef ListType NoData [LeafDef, NodeDef TupleType NoData [LeafDef, LeafDef]]"
  let ?reg = "\<lparr>enable_none = True, node_types = []\<rparr>"
  let ?t = "PyList [Opaque (1::int), PyTuple [Opaque 2, Opaque 3]]"
  have wf: "wf_treedef ?td" by simp
  have fl: "tree_flatten ?reg ?t None = ([Opaque 1, Opaque 2, Opaque 3], ?td)"
    by (simp add: tree_flatten_def flatten.simps leaf_pred_def)
  have un: "tree_unflatten ?td [Opaque (1::int), Opaque 2, Opaque 3]
      = Inr (PyList [Opaque 1, PyTuple [Opaque 2, Opaque 3]])"
    by (simp add: tree_unflatten_def unflatten_def)
  show ?thesis
    using wf fl un
      leaf_count_invariant [of ?td "[Opaque (1::int), Opaque 2]" ?reg ?t None
        "[Opaque 1, Opaque 2, Opaque 3]" ?td]
    by simp
qed

section \<open>Sorted dictionary items\<close>

lemma map_insort_key: "map f (insort_key f x xs) = insort (f x) (map f xs)"
  by (induction xs) auto

lemma map_fst_sort_key: "map fst (sort_key fst kvs) = sort (map fst kvs)"
  by (induction kvs) (auto simp: map_insort_key)

lemma distinct_sort_key_fst: "distinct (map fst kvs) \<Longrightarrow> distinct (map fst (sort_key fst kvs))"
  by (simp add: map_fst_sort_key)

lemma map_filter_map_of:
  "distinct (map fst kvs) \<Longrightarrow> set kvs' \<subseteq> set kvs \<Longrightarrow>
   List.map_filter (map_of kvs) (map fst kvs') = map snd kvs'"
proof (induction kvs')
  case Nil
  then show ?case by (simp add: List.map_filter_simps)
next
  case (Cons kv kvs')
  obtain k v where kv: "kv = (k, v)" by (cases kv)
  with Cons.prems have m: "map_of kvs k = Some v" by simp
  have "List.map_filter (map_of kvs) (map fst (kv # kvs'))
          = v # List.map_filter (map_of kvs) (map fst kvs')"
    unfolding kv by (simp only: list.map fst_conv List.map_filter_simps m option.case)
  with Cons show ?case by (simp add: kv)
qed

lemma defaultdict_children:
  "distinct (map fst kvs) \<Longrightarrow>
   flatten_defaultdict f kvs = (map snd (sort_key fst kvs), FactoryKeys f (sort (map fst kvs)))"
  using map_filter_map_of [of kvs "sort_key fst kvs"]
  by (simp add: flatten_defaultdict_def Let_def map_fst_sort_key)

lemma one_level_wf:
  assumes "wf_pytree t" and "registry_flatten_one_level reg t = Some (cs, d)" and "c \<in> set cs"
  shows "wf_pytree c"
  using assms
  by (cases t) (auto simp: dict_to_iter_def ordereddict_to_iter_def defaultdict_children
                     split: if_splits)

section \<open>Round trip\<close>









section \<open>Canonical order of a dict\<close>

lemma sort_key_fst_unique:
  assumes "distinct (map fst kvs)" and "distinct (map fst kvs')" and "set kvs' = set kvs"
  shows "sort_key fst kvs' = sort_key fst kvs"
proof (rule map_sorted_distinct_set_unique [where f = fst])
  from assms(1) have "inj_on fst (set kvs)"
    by (simp add: distinct_map)
  then show "inj_on fst (set (sort_key fst kvs') \<union> set (sort_key fst kvs))"
    using assms(3) by simp
qed (use assms in \<open>simp_all add: distinct_sort_key_fst\<close>)

lemma flatten_dict:
  assumes "\<not> leaf_pred is_leaf (PyDict kvs)"
  shows "flatten reg (PyDict kvs) is_leaf =
     (concat (map (\<lambda>(k, v). fst (flatten reg v is_leaf)) (sort_key fst kvs)),
      NodeDef DictType (Keys (sort (map fst kvs)))
        (map (\<lambda>(k, v). snd (flatten reg v is_leaf)) (sort_key fst kvs)))"
  using assms
  by (simp add: flatten_node [where cs = "map snd (sort_key fst kvs)"
                     and d = "Keys (map fst (sort_key fst kvs))"]
        dict_to_iter_def map_fst_sort_key comp_def case_prod_unfold)

text \<open>
  Claim C4. Flattening a dict emits the flattened values in the order of the sorted keys and
  records the sorted keys in the treedef; so two dicts with the same key/value pairs, whatever
  the order of insertion, flatten to the same leaves and the same treedef. Flattening
  \<^verbatim>\<open>{"b": 1, "a": 2}\<close> gives the leaves \<^verbatim>\<open>[2, 1]\<close> and a treedef with the keys \<^verbatim>\<open>a\<close>, \<^verbatim>\<open>b\<close>.
\<close>

theorem dict_sorted_key_order:
  assumes "distinct (map fst kvs)" and "\<not> leaf_pred is_leaf (PyDict kvs)"
  shows "tree_flatten reg (PyDict kvs) is_leaf =
           (concat (map (\<lambda>(k, v). fst (tree_flatten reg v is_leaf)) (sort_key fst kvs)),
            NodeDef DictType (Keys (sort (map fst kvs)))
              (map (\<lambda>(k, v). snd (tree_flatten reg v is_leaf)) (sort_key fst kvs))) \<and>
         sorted (map fst (sort_key fst kvs)) \<and>
         set (sort_key fst kvs) = set kvs \<and>
         (distinct (map fst kvs') \<and> set kvs' = set kvs \<and> \<not> leaf_pred is_leaf (PyDict kvs') \<longrightarrow>
            tree_flatten reg (PyDict kvs') is_leaf = tree_flatten reg (PyDict kvs) is_leaf) \<and>
         tree_flatten reg (PyDict [(''b'', Opaque x), (''a'', Opaque y)]) None =
           ([Opaque y, Opaque x], NodeDef DictType (Keys [''a'', ''b'']) [LeafDef, LeafDef])"
proof -
  have "tree_flatten reg (PyDict kvs') is_leaf = tree_flatten reg (PyDict kvs) is_leaf"
    if "distinct (map fst kvs')" "set kvs' = set kvs" "\<not> leaf_pred is_leaf (PyDict kvs')"
  proof -
    have "sort (map fst kvs') = sort (map fst kvs)"
      using sort_key_fst_unique [OF assms(1) that(1,2)] map_fst_sort_key by metis
    then show ?thesis
      using sort_key_fst_unique [OF assms(1) that(1,2)] that(3) assms(2)
      by (simp add: tree_flatten_def flatten_dict)
  qed
  moreover have "tree_flatten reg (PyDict [(''b'', Opaque x), (''a'', Opaque y)]) None =
           ([Opaque y, Opaque x], NodeDef DictType (Keys [''a'', ''b'']) [LeafDef, LeafDef])"
    by (simp add: tree_flatten_def flatten_dict leaf_pred_def flatten_unregistered)
  ultimately show ?thesis
    using assms(2) by (simp add: tree_flatten_def flatten_dict)
qed

theorem dict_sorted_key_order_witness:
  "distinct (map fst [(''b'', Opaque (1::int)), (''a'', Opaque 2)]) \<and>
   tree_flatten \<lparr>enable_none = True, node_types = []\<rparr>
      (PyDict [(''b'', Opaque (1::int)), (''a'', Opaque 2)]) None
     = ([Opaque 2, Opaque 1], NodeDef DictType (Keys [''a'', ''b'']) [LeafDef, LeafDef]) \<and>
   tree_flatten \<lparr>enable_none = True, node_types = []\<rparr>
      (PyDict [(''a'', Opaque (2::int)), (''b'', Opaque 1)]) None
     = tree_flatten \<lparr>enable_none = True, node_types = []\<rparr>
      (PyDict [(''b'', Opaque (1::int)), (''a'', Opaque 2)]) None"
proof -
  let ?kvs = "[(''b'', Opaque (1::int)), (''a'', Opaque 2)]"
  let ?kvs' = "[(''a'', Opaque (2::int)), (''b'', Opaque 1)]"
  have d: "distinct (map fst ?kvs)" and d': "distinct (map fst ?kvs')" by simp_all
  have s: "set ?kvs' = set ?kvs" by auto
  have l: "\<not> leaf_pred None (PyDict ?kvs)" "\<not> leaf_pred None (PyDict ?kvs')"
    by (simp_all add: leaf_pred_def)
  from dict_sorted_key_order [OF d l(1), where reg = "\<lparr>enable_none = True, node_types = []\<rparr>"
      and kvs' = ?kvs' and x = "1::int" and y = "2::int"]
    d d' s l show ?thesis by (simp add: tree_flatten_def flatten_unregistered)
qed

section \<open>Key paths follow the flattening order\<close>

lemma map_snd_concat_branch:
  assumes "\<And>k c. (k, c) \<in> set kcs \<Longrightarrow> map snd (G k c) = F c"
  shows "map snd (concat (map (\<lambda>(k, c). G k c) kcs)) = concat (map F (map snd kcs))"
  using assms by (induction kcs) auto

lemma flatten_with_keys_children:
  assumes "wf_pytree t" and "flatten_with_keys t = Some (kcs, d)"
  shows "registry_flatten_one_level reg t = Some (map snd kcs, d)"
  using assms
  by (cases t)
     (auto simp: dict_to_iter_def ordereddict_to_iter_def defaultdict_children map_snd_zip)

lemma namedtuple_key_children_eq:
  assumes "distinct (map fst fvs)"
  shows "namedtuple_key_children (PyNamedTuple n fvs) = map (\<lambda>(s, v). (GetAttrKey s, v)) fvs"
proof -
  have "List.map_filter (\<lambda>s. map_option (\<lambda>v. (GetAttrKey s, v)) (map_of fvs s)) (map fst fvs')
          = map (\<lambda>(s, v). (GetAttrKey s, v)) fvs'"
    if "set fvs' \<subseteq> set fvs" for fvs'
    using that
  proof (induction fvs')
    case Nil
    then show ?case by (simp add: List.map_filter_simps)
  next
    case (Cons sv fvs')
    obtain s v where sv: "sv = (s, v)" by (cases sv)
    with Cons.prems assms have m: "map_of fvs s = Some v" by simp
    have "List.map_filter (\<lambda>s. map_option (\<lambda>v. (GetAttrKey s, v)) (map_of fvs s))
             (map fst (sv # fvs'))
          = (GetAttrKey s, v)
            # List.map_filter (\<lambda>s. map_option (\<lambda>v. (GetAttrKey s, v)) (map_of fvs s))
                (map fst fvs')"
      unfolding sv
      by (simp only: list.map fst_conv List.map_filter_simps m option.case option.map)
    with Cons show ?case by (simp add: sv)
  qed
  then show ?thesis by simp
qed

lemma key_paths_leaves:
  "wf_pytree tree \<Longrightarrow>
   map snd (generate_key_paths_impl reg key_path tree is_leaf) = fst (flatten reg tree is_leaf)"
proof (induction tree arbitrary: key_path rule: measure_induct_rule [where f = size])
  case (less tree)
  note wf = \<open>wf_pytree tree\<close>
  show ?case
  proof (cases "leaf_pred is_leaf tree")
    case True
    then show ?thesis
      by (simp add: generate_key_paths_impl.simps flatten_leaf)
  next
    case notleaf: False
    have ih: "map snd (generate_key_paths_impl reg kp c is_leaf) = fst (flatten reg c is_leaf)"
      if "registry_flatten_one_level reg tree = Some (cs, d)" "c \<in> set cs" for cs d c kp
      using less.IH [OF one_level_size [OF that] one_level_wf [OF wf that]] .
    show ?thesis
    proof (cases "flatten_with_keys tree")
      case (Some p)
      obtain kcs d where p: "p = (kcs, d)" by (cases p)
      have one: "registry_flatten_one_level reg tree = Some (map snd kcs, d)"
        using flatten_with_keys_children [OF wf] Some p by simp
      have "map snd (concat (map (\<lambda>(k, c). generate_key_paths_impl reg (key_path @ [k]) c is_leaf)
                                 kcs))
            = concat (map (\<lambda>c. fst (flatten reg c is_leaf)) (map snd kcs))"
        by (rule map_snd_concat_branch) (use ih [OF one] in force)
      then show ?thesis
        using notleaf Some p one
        by (simp add: generate_key_paths_impl.simps [of reg key_path tree] flatten_node)
    next
      case None
      show ?thesis
      proof (cases "registry_flatten_one_level reg tree")
        case none: None
        then show ?thesis
          using notleaf None
          by (simp add: generate_key_paths_impl.simps [of reg key_path tree] flatten_unregistered)
      next
        case (Some p)
        obtain cs d where p: "p = (cs, d)" by (cases p)
        note one = Some [unfolded p]
        show ?thesis
        proof (cases "is_namedtuple tree \<and> d = TypeData (type_of tree)")
          case True
          then obtain n fvs where t: "tree = PyNamedTuple n fvs"
            by (cases tree) auto
          from wf t have "distinct (map fst fvs)" by simp
          then have kc: "namedtuple_key_children tree = map (\<lambda>(s, v). (GetAttrKey s, v)) fvs"
            unfolding t by (rule namedtuple_key_children_eq)
          have cs: "cs = map snd (namedtuple_key_children tree)"
            using one t kc by (auto simp: comp_def case_prod_unfold)
          have "map snd (concat (map (\<lambda>(k, c).
                    generate_key_paths_impl reg (key_path @ [k]) c is_leaf)
                  (namedtuple_key_children tree)))
                = concat (map (\<lambda>c. fst (flatten reg c is_leaf))
                    (map snd (namedtuple_key_children tree)))"
            by (rule map_snd_concat_branch) (use ih [OF one] cs in force)
          then show ?thesis
            using notleaf None one True cs
            by (simp add: generate_key_paths_impl.simps [of reg key_path tree] flatten_node)
        next
          case False
          have "map snd (concat (map (\<lambda>(i, c).
                    generate_key_paths_impl reg (key_path @ [FlattenedIndexKey i]) c is_leaf)
                  (enumerate 0 cs)))
                = concat (map (\<lambda>c. fst (flatten reg c is_leaf)) (map snd (enumerate 0 cs)))"
            by (rule map_snd_concat_branch) (use ih [OF one] in \<open>auto simp: in_set_enumerate_eq\<close>)
          then show ?thesis
            using notleaf None one False
            by (auto simp: generate_key_paths_impl.simps [of reg key_path tree] flatten_node)
        qed
      qed
    qed
  qed
qed

text \<open>
  Claim C5. For every well-formed tree and every \<^verbatim>\<open>is_leaf\<close>, the leaves that
  \<^verbatim>\<open>generate_key_paths\<close> yields, in the order it yields them, are the leaves that
  \<^verbatim>\<open>tree_flatten\<close> returns: one entry for each leaf, in the same order, for every node type,
  \<^verbatim>\<open>defaultdict\<close> included.
\<close>

theorem key_paths_follow_flatten:
  assumes "wf_pytree tree"
  shows "map snd (generate_key_paths reg tree is_leaf) = fst (tree_flatten reg tree is_leaf) \<and>
         length (generate_key_paths reg tree is_leaf) = length (fst (tree_flatten reg tree is_leaf))"
proof -
  have "map snd (generate_key_paths reg tree is_leaf) = fst (tree_flatten reg tree is_leaf)"
    using key_paths_leaves [OF assms] by (simp add: generate_key_paths_def tree_flatten_def)
  then show ?thesis
    using length_map [of snd "generate_key_paths reg tree is_leaf"] by simp
qed

theorem key_paths_follow_flatten_witness:
  "wf_pytree (PyList [PyDefaultDict None [(''b'', Opaque (1::int)), (''a'', Opaque 2)], PyNone]) \<and>
   generate_key_paths \<lparr>enable_none = True, node_types = []\<rparr>
     (PyList [PyDefaultDict None [(''b'', Opaque (1::int)), (''a'', Opaque 2)], PyNone]) None
     = [([SequenceKey 0, DictKey ''b''], Opaque 2), ([SequenceKey 0, DictKey ''a''], Opaque 1)] \<and>
   fst (tree_flatten \<lparr>enable_none = True, node_types = []\<rparr>
     (PyList [PyDefaultDict None [(''b'', Opaque (1::int)), (''a'', Opaque 2)], PyNone]) None)
     = [Opaque 2, Opaque 1]"
proof -
  let ?t = "PyList [PyDefaultDict None [(''b'', Opaque (1::int)), (''a'', Opaque 2)], PyNone]"
  let ?reg = "\<lparr>enable_none = True, node_types = []\<rparr>"
  have wf: "wf_pytree ?t" by simp
  have kp: "generate_key_paths ?reg ?t None
     = [([SequenceKey 0, DictKey ''b''], Opaque 2), ([SequenceKey 0, DictKey ''a''], Opaque 1)]"
    by (simp add: generate_key_paths_def generate_key_paths_impl.simps leaf_pred_def
          flatten_defaultdict_def List.map_filter_simps enumerate_eq_zip upt_rec)
  from key_paths_follow_flatten [OF wf, of ?reg None] wf kp show ?thesis by simp
qed

section \<open>Rows and columns\<close>

lemma zip_star_Nil: "zip_star [] = []"
  by (simp add: zip_star.simps)

lemma zip_star_rect:
  "rows \<noteq> [] \<Longrightarrow> \<forall>r \<in> set rows. length r = m \<Longrightarrow>
   zip_star rows = map (\<lambda>i. map (\<lambda>r. r ! i) rows) [0..<m]"
proof (induction m arbitrary: rows)
  case 0
  then have "[] \<in> set rows" by (cases rows) auto
  then show ?case by (simp add: zip_star.simps)
next
  case (Suc m)
  have ne: "[] \<notin> set rows" using Suc.prems(2) by auto
  have tl: "map tl rows \<noteq> []" "\<forall>r \<in> set (map tl rows). length r = m"
    using Suc.prems by auto
  have hd: "map hd rows = map (\<lambda>r. r ! 0) rows"
  proof (intro map_cong refl)
    fix r assume "r \<in> set rows"
    with ne have "r \<noteq> []" by auto
    then show "hd r = r ! 0" by (rule hd_conv_nth)
  qed
  have col: "map (\<lambda>r. r ! i) (map tl rows) = map (\<lambda>r. r ! Suc i) rows" if "i < m" for i
    using that Suc.prems(2) by (auto simp: nth_tl)
  have "map (\<lambda>i. map (\<lambda>r. r ! i) (map tl rows)) [0..<m]
              = map (\<lambda>i. map (\<lambda>r. r ! Suc i) rows) [0..<m]"
    by (rule map_cong [OF refl]) (rule col, simp)
  then have "zip_star (map tl rows) = map (\<lambda>i. map (\<lambda>r. r ! Suc i) rows) [0..<m]"
    using Suc.IH [OF tl] by simp
  moreover have "zip_star rows = map hd rows # zip_star (map tl rows)"
    using Suc.prems(1) ne by (subst zip_star.simps) simp
  moreover have "[0..<Suc m] = 0 # map Suc [0..<m]"
    by (simp add: upt_conv_Cons map_Suc_upt del: upt_Suc)
  ultimately show ?case
    using hd by (simp add: comp_def del: upt_Suc)
qed

lemma take_rows_eq:
  "take_rows m n flat = map (\<lambda>j. take m (drop (j * m) flat)) [0..<n]"
proof (induction n arbitrary: flat)
  case 0
  then show ?case by simp
next
  case (Suc n)
  have "[0..<Suc n] = 0 # map Suc [0..<n]"
    by (simp add: upt_conv_Cons map_Suc_upt del: upt_Suc)
  then show ?case
    using Suc.IH [of "drop m flat"] by (simp add: comp_def add.commute del: upt_Suc)
qed

lemma zip_star_take_rows:
  assumes "length flat = m * n" and "0 < n"
  shows "zip_star (take_rows m n flat)
           = map (\<lambda>i. map (\<lambda>j. flat ! (j * m + i)) [0..<n]) [0..<m]"
proof -
  let ?rows = "map (\<lambda>j. take m (drop (j * m) flat)) [0..<n]"
  have le: "j * m + m \<le> length flat" if "j < n" for j
  proof -
    from that have "Suc j \<le> n" by simp
    then have "Suc j * m \<le> n * m" by (rule mult_le_mono1)
    then show ?thesis using assms(1) by (simp add: mult.commute)
  qed
  have "length (take m (drop (j * m) flat)) = m" if "j < n" for j
    using le [OF that] by simp
  then have len: "\<forall>r \<in> set ?rows. length r = m"
    by auto
  have ne: "?rows \<noteq> []"
    using assms(2) by simp
  have cell: "take m (drop (j * m) flat) ! i = flat ! (j * m + i)" if "i < m" "j < n" for i j
    using that le [OF that(2)] by simp
  have col: "map (\<lambda>r. r ! i) ?rows = map (\<lambda>j. flat ! (j * m + i)) [0..<n]" if "i < m" for i
    using cell [OF that] by (simp add: comp_def)
  have "map (\<lambda>i. map (\<lambda>r. r ! i) ?rows) [0..<m]
               = map (\<lambda>i. map (\<lambda>j. flat ! (j * m + i)) [0..<n]) [0..<m]"
    by (rule map_cong [OF refl]) (rule col, simp)
  then show ?thesis
    using zip_star_rect [OF ne len] by (simp add: take_rows_eq)
qed

lemma collect_all_ok:
  "(\<And>x. x \<in> set xs \<Longrightarrow> \<exists>y. g x = Inr y) \<Longrightarrow>
   \<exists>ys. collect (map g xs) = Inr ys \<and> length ys = length xs \<and>
        (\<forall>i < length xs. g (xs ! i) = Inr (ys ! i))"
proof (induction xs)
  case Nil
  then show ?case by simp
next
  case (Cons x xs)
  from Cons.prems obtain y where y: "g x = Inr y" by auto
  from Cons obtain ys where ys: "collect (map g xs) = Inr ys" "length ys = length xs"
    "\<forall>i < length xs. g (xs ! i) = Inr (ys ! i)"
    by auto
  have "\<forall>i < length (x # xs). g ((x # xs) ! i) = Inr ((y # ys) ! i)"
    using y ys(3) by (auto simp: nth_Cons split: nat.splits)
  with y ys show ?case by auto
qed

lemma num_leaves_compose:
  "num_leaves (compose outer inner) = num_leaves outer * num_leaves inner"
proof (induction outer)
  case LeafDef
  then show ?case by simp
next
  case (NodeDef ty d cs)
  then have "sum_list (map (\<lambda>c. num_leaves (compose c inner)) cs)
               = sum_list (map num_leaves cs) * num_leaves inner"
    by (induction cs) (auto simp: add_mult_distrib)
  then show ?case
    by (simp add: comp_def)
qed

section \<open>Transposing\<close>

lemma tree_transpose_unfold:
  assumes "tree_flatten reg tree None = (flat, treedef)"
  shows "tree_transpose reg outer (Some inner) tree =
     (if num_leaves treedef \<noteq> num_leaves inner * num_leaves outer
      then Inl (StructureMismatch (Composed treedef (compose outer inner)))
      else case collect (map (tree_unflatten outer)
                  (zip_star (take_rows (num_leaves inner) (num_leaves outer) flat))) of
             Inl e \<Rightarrow> Inl e
           | Inr subtrees \<Rightarrow> tree_unflatten inner subtrees)"
  using assms by (simp add: tree_transpose_def Let_def)

text \<open>
  Claim C6. With \<open>flat\<close> and \<open>treedef\<close> the leaves and the treedef of the tree:
  \<^item> when \<open>num_leaves treedef\<close> is not the product of the leaf counts of the inner and the outer
    treedef, \<^verbatim>\<open>tree_transpose\<close> fails with the \<open>StructureMismatch\<close> that names the composed
    treedef, which has that product as its leaf count;
  \<^item> when it is the product (and the outer treedef has a leaf), the result is the inner treedef
    unflattened on \<open>rows\<close>, where row \<open>i\<close> is the outer treedef unflattened on the leaves
    \<open>flat ! (j * inner_size + i)\<close> for \<open>j\<close> from \<open>0\<close>: column \<open>i\<close> of the row-major grid;
  \<^item> \<^verbatim>\<open>[(1, 2, 3), (4, 5, 6)]\<close> transposed under the structures of a two-element list and a
    three-element tuple is \<^verbatim>\<open>([1, 4], [2, 5], [3, 6])\<close>.
\<close>

theorem tree_transpose_spec:
  assumes "tree_flatten reg tree None = (flat, treedef)"
  shows "(num_leaves treedef \<noteq> num_leaves inner * num_leaves outer \<longrightarrow>
            tree_transpose reg outer (Some inner) tree
              = Inl (StructureMismatch (Composed treedef (compose outer inner)))) \<and>
         num_leaves (compose outer inner) = num_leaves outer * num_leaves inner \<and>
         (wf_treedef outer \<and> wf_treedef inner \<and> 0 < num_leaves outer \<and>
          num_leaves treedef = num_leaves inner * num_leaves outer \<longrightarrow>
            (\<exists>rows t.
               length rows = num_leaves inner \<and>
               (\<forall>i < num_leaves inner.
                  tree_unflatten outer
                    (map (\<lambda>j. flat ! (j * num_leaves inner + i)) [0..<num_leaves outer])
                    = Inr (rows ! i)) \<and>
               tree_unflatten inner rows = Inr t \<and>
               tree_transpose reg outer (Some inner) tree = Inr t)) \<and>
         tree_transpose reg
             (tree_structure reg (PyList [Opaque p, Opaque p]) None)
             (Some (tree_structure reg (PyTuple [Opaque p, Opaque p, Opaque p]) None))
             (PyList [PyTuple [Opaque x1, Opaque x2, Opaque x3],
                      PyTuple [Opaque x4, Opaque x5, Opaque x6]])
           = Inr (PyTuple [PyList [Opaque x1, Opaque x4], PyList [Opaque x2, Opaque x5],
                           PyList [Opaque x3, Opaque x6]])"
proof -
  let ?m = "num_leaves inner" and ?n = "num_leaves outer"
  let ?cols = "map (\<lambda>i. map (\<lambda>j. flat ! (j * ?m + i)) [0..<?n]) [0..<?m]"
  have len: "length flat = num_leaves treedef"
    using assms flatten_num_leaves [of reg tree None] by (simp add: tree_flatten_def)
  have success: "\<exists>rows t. length rows = ?m \<and>
       (\<forall>i < ?m. tree_unflatten outer (map (\<lambda>j. flat ! (j * ?m + i)) [0..<?n]) = Inr (rows ! i)) \<and>
       tree_unflatten inner rows = Inr t \<and>
       tree_transpose reg outer (Some inner) tree = Inr t"
    if wf: "wf_treedef outer" "wf_treedef inner" and pos: "0 < ?n"
      and eq: "num_leaves treedef = ?m * ?n"
  proof -
    have cols: "zip_star (take_rows ?m ?n flat) = ?cols"
      using zip_star_take_rows [OF _ pos, of flat ?m] len eq by simp
    have "\<exists>y. tree_unflatten outer col = Inr y" if "col \<in> set ?cols" for col
      using that unflatten_iff(2) [OF wf(1), of col] by (auto simp: tree_unflatten_def)
    from collect_all_ok [of ?cols "tree_unflatten outer", OF this] obtain rows where
      rows: "collect (map (tree_unflatten outer) ?cols) = Inr rows" "length rows = ?m"
        "\<forall>i < ?m. tree_unflatten outer (?cols ! i) = Inr (rows ! i)"
      by auto
    from unflatten_iff(2) [OF wf(2), of rows] rows(2) obtain t where
      t: "tree_unflatten inner rows = Inr t"
      by (auto simp: tree_unflatten_def)
    have "tree_transpose reg outer (Some inner) tree = Inr t"
      using eq cols rows(1) t by (simp add: tree_transpose_unfold [OF assms])
    moreover have "\<forall>i < ?m. tree_unflatten outer (map (\<lambda>j. flat ! (j * ?m + i)) [0..<?n])
                      = Inr (rows ! i)"
      using rows(3) by simp
    ultimately show ?thesis
      using rows(2) t by blast
  qed
  have example: "tree_transpose reg
             (tree_structure reg (PyList [Opaque p, Opaque p]) None)
             (Some (tree_structure reg (PyTuple [Opaque p, Opaque p, Opaque p]) None))
             (PyList [PyTuple [Opaque x1, Opaque x2, Opaque x3],
                      PyTuple [Opaque x4, Opaque x5, Opaque x6]])
           = Inr (PyTuple [PyList [Opaque x1, Opaque x4], PyList [Opaque x2, Opaque x5],
                           PyList [Opaque x3, Opaque x6]])"
    by (simp add: tree_transpose_def tree_flatten_def tree_structure_def flatten.simps
          leaf_pred_def zip_star.simps tree_unflatten_def unflatten_def numeral_3_eq_3
          numeral_2_eq_2)
  show ?thesis
    using success example num_leaves_compose [of outer inner]
    by (simp add: tree_transpose_unfold [OF assms])
qed

theorem tree_transpose_spec_witness:
  "tree_flatten \<lparr>enable_none = True, node_types = []\<rparr>
      (PyList [PyTuple [Opaque (1::int), Opaque 2, Opaque 3],
               PyTuple [Opaque 4, Opaque 5, Opaque 6]]) None
     = ([Opaque 1, Opaque 2, Opaque 3, Opaque 4, Opaque 5, Opaque 6],
        NodeDef ListType NoData
          [NodeDef TupleType NoData [LeafDef, LeafDef, LeafDef],
           NodeDef TupleType NoData [LeafDef, LeafDef, LeafDef]]) \<and>
   tree_transpose \<lparr>enable_none = True, node_types = []\<rparr>
      (NodeDef ListType NoData [LeafDef, LeafDef])
      (Some (NodeDef TupleType NoData [LeafDef, LeafDef]))
      (PyList [PyTuple [Opaque (1::int), Opaque 2, Opaque 3],
               PyTuple [Opaque 4, Opaque 5, Opaque 6]])
     = Inl (StructureMismatch (Composed
         (NodeDef ListType NoData
            [NodeDef TupleType NoData [LeafDef, LeafDef, LeafDef],
             NodeDef TupleType NoData [LeafDef, LeafDef, LeafDef]])
         (NodeDef ListType NoData
            [NodeDef TupleType NoData [LeafDef, LeafDef],
             NodeDef TupleType NoData [LeafDef, LeafDef]]))) \<and>
   tree_transpose \<lparr>enable_none = True, node_types = []\<rparr>
      (NodeDef ListType NoData [LeafDef, LeafDef])
      (Some (NodeDef TupleType NoData [LeafDef, LeafDef, LeafDef]))
      (PyList [PyTuple [Opaque (1::int), Opaque 2, Opaque 3],
               PyTuple [Opaque 4, Opaque 5, Opaque 6]])
     = Inr (PyTuple [PyList [Opaque 1, Opaque 4], PyList [Opaque 2, Opaque 5],
                     PyList [Opaque 3, Opaque 6]])"
proof -
  let ?reg = "\<lparr>enable_none = True, node_types = []\<rparr>"
  let ?tree = "PyList [PyTuple [Opaque (1::int), Opaque 2, Opaque 3],
                       PyTuple [Opaque 4, Opaque 5, Opaque 6]]"
  let ?outer = "NodeDef ListType NoData [LeafDef, LeafDef]"
  have fl: "tree_flatten ?reg ?tree None
     = ([Opaque 1, Opaque 2, Opaque 3, Opaque 4, Opaque 5, Opaque 6],
        NodeDef ListType NoData
          [NodeDef TupleType NoData [LeafDef, LeafDef, LeafDef],
           NodeDef TupleType NoData [LeafDef, LeafDef, LeafDef]])"
    by (simp add: tree_flatten_def flatten.simps leaf_pred_def)
  have s2: "tree_structure ?reg (PyList [Opaque (0::int), Opaque 0]) None = ?outer"
    by (simp add: tree_structure_def flatten.simps leaf_pred_def)
  have s3: "tree_structure ?reg (PyTuple [Opaque (0::int), Opaque 0, Opaque 0]) None
              = NodeDef TupleType NoData [LeafDef, LeafDef, LeafDef]"
    by (simp add: tree_structure_def flatten.simps leaf_pred_def)
  from tree_transpose_spec [OF fl, where inner = "NodeDef TupleType NoData [LeafDef, LeafDef]"
      and outer = ?outer and p = "0::int" and ?x1.0 = "1::int" and ?x2.0 = "2::int"
      and ?x3.0 = "3::int" and ?x4.0 = "4::int" and ?x5.0 = "5::int" and ?x6.0 = "6::int"]
    fl s2 s3 show ?thesis by simp
qed

section \<open>Flattening up to a treedef\<close>

lemma flatten_up_to_length:
  "flatten_up_to reg td (r :: 'a pytree) = Inr xs \<Longrightarrow> length xs = num_leaves td"
  "flatten_up_to_list reg cs (ts :: 'a pytree list) = Inr xs \<Longrightarrow>
     length xs = sum_list (map num_leaves cs)"
proof (induction reg td r and reg cs ts arbitrary: xs and xs rule: flatten_up_to_flatten_up_to_list.induct)
  case (1 reg t)
  then show ?case by auto
next
  case (2 reg ty d cs t)
  then show ?case by (auto split: option.splits if_splits)
next
  case (4 reg c cs t ts)
  then show ?case by (auto split: sum.splits)
qed simp_all

lemma flatten_up_to_error:
  "flatten_up_to reg td (r :: 'a pytree) = Inl e \<Longrightarrow> e = StructureMismatch Shape"
  "flatten_up_to_list reg cs (ts :: 'a pytree list) = Inl e \<Longrightarrow> e = StructureMismatch Shape"
proof (induction reg td r and reg cs ts rule: flatten_up_to_flatten_up_to_list.induct)
  case (2 reg ty d cs t)
  then show ?case by (auto split: option.splits if_splits)
next
  case (4 reg c cs t ts)
  then show ?case by (auto split: sum.splits)
qed simp_all

lemma flatten_up_to_list_self:
  assumes "\<And>c. c \<in> set cs \<Longrightarrow> flatten_up_to reg (snd (F c)) c = Inr (fst (F c))"
  shows "flatten_up_to_list reg (map (\<lambda>c. snd (F c)) cs) cs = Inr (concat (map (\<lambda>c. fst (F c)) cs))"
  using assms by (induction cs) auto

lemma flatten_up_to_self:
  "flatten_up_to reg (snd (flatten reg t is_leaf)) t = Inr (fst (flatten reg t is_leaf))"
proof (induction reg t is_leaf rule: flatten.induct)
  case (1 reg tree is_leaf)
  show ?case
  proof (cases "leaf_pred is_leaf tree")
    case True
    then show ?thesis by (simp add: flatten_leaf)
  next
    case notleaf: False
    show ?thesis
    proof (cases "registry_flatten_one_level reg tree")
      case None
      then show ?thesis by (simp add: flatten_unregistered)
    next
      case (Some p)
      obtain cs d where p: "p = (cs, d)" by (cases p)
      have "flatten_up_to reg (snd (flatten reg c is_leaf)) c = Inr (fst (flatten reg c is_leaf))"
        if "c \<in> set cs" for c
        using "1.IH" [OF notleaf Some p [symmetric] that] .
      from flatten_up_to_list_self [of cs reg "\<lambda>c. flatten reg c is_leaf", OF this]
      show ?thesis
        using notleaf Some p by (simp add: flatten_node)
    qed
  qed
qed

lemma one_level_node_wf:
  assumes "wf_pytree t" and "registry_flatten_one_level reg t = Some (cs, d)"
    and "length cs' = length cs" and "\<forall>c \<in> set cs'. wf_treedef c"
  shows "wf_treedef (NodeDef (type_of t) d cs')"
  using assms
  by (cases t)
     (auto simp: dict_to_iter_def ordereddict_to_iter_def defaultdict_children
        distinct_sort_key_fst map_fst_sort_key split: if_splits)

lemma flatten_wf_treedef:
  "wf_pytree t \<Longrightarrow> wf_treedef (snd (flatten reg t is_leaf))"
proof (induction reg t is_leaf rule: flatten.induct)
  case (1 reg tree is_leaf)
  show ?case
  proof (cases "leaf_pred is_leaf tree")
    case True
    then show ?thesis by (simp add: flatten_leaf)
  next
    case notleaf: False
    show ?thesis
    proof (cases "registry_flatten_one_level reg tree")
      case None
      then show ?thesis by (simp add: flatten_unregistered)
    next
      case (Some p)
      obtain cs d where p: "p = (cs, d)" by (cases p)
      have "wf_treedef (snd (flatten reg c is_leaf))" if "c \<in> set cs" for c
        using "1.IH" [OF notleaf Some p [symmetric] that] one_level_wf [OF "1.prems" _ that]
          Some p by simp
      then have "\<forall>c \<in> set (map (\<lambda>c. snd (flatten reg c is_leaf)) cs). wf_treedef c"
        by auto
      from one_level_node_wf [OF "1.prems" _ _ this, of reg cs d] Some p
      show ?thesis
        using notleaf by (simp add: flatten_node)
    qed
  qed
qed

text \<open>The spec's words for when a rest tree fits: it shares the structure at every level where
  the treedef still branches (the same node type, the same metadata, as many children, each
  fitting in turn), and may be anything where the treedef has reached a \<open>Leaf\<close>. Stated on
  the structure of the rest tree.\<close>

fun treedef_prefix :: "treedef \<Rightarrow> treedef \<Rightarrow> bool" where
  "treedef_prefix LeafDef full = True"
| "treedef_prefix (NodeDef ty d cs) LeafDef = False"
| "treedef_prefix (NodeDef ty d cs) (NodeDef ty' d' cs') =
     (ty = ty' \<and> d = d' \<and> list_all2 treedef_prefix cs cs')"

lemma structure_unregistered:
  "registry_flatten_one_level reg t = None \<Longrightarrow> tree_structure reg t None = LeafDef"
  by (simp add: tree_structure_def flatten_unregistered)

lemma structure_node:
  "registry_flatten_one_level reg t = Some (cs, d) \<Longrightarrow>
   tree_structure reg t None = NodeDef (type_of t) d (map (\<lambda>c. tree_structure reg c None) cs)"
  by (simp add: tree_structure_def flatten_node leaf_pred_def)

lemma flatten_up_to_prefix:
  "(\<exists>xs. flatten_up_to reg td (r :: 'a pytree) = Inr xs) \<longleftrightarrow>
     treedef_prefix td (tree_structure reg r None)"
  "(\<exists>xs. flatten_up_to_list reg cs (ts :: 'a pytree list) = Inr xs) \<longleftrightarrow>
     list_all2 (\<lambda>c t. treedef_prefix c (tree_structure reg t None)) cs ts"
proof (induction reg td r and reg cs ts rule: flatten_up_to_flatten_up_to_list.induct)
  case (1 reg t)
  show ?case by simp
next
  case (2 reg ty d cs t)
  show ?case
  proof (cases "registry_flatten_one_level reg t")
    case None
    then show ?thesis by (simp add: structure_unregistered)
  next
    case (Some p)
    obtain children d' where p: "p = (children, d')" by (cases p)
    show ?thesis
    proof (cases "type_of t \<noteq> ty \<or> length children \<noteq> length cs \<or> d' \<noteq> d")
      case True
      then show ?thesis
        using Some p by (auto simp: structure_node list_all2_map2 dest: list_all2_lengthD)
    next
      case False
      with "2.IH" [OF Some p [symmetric]] show ?thesis
        using Some p by (auto simp: structure_node list_all2_map2)
    qed
  qed
next
  case (3 reg)
  show ?case by simp
next
  case (4 reg c cs t ts)
  show ?case
  proof (cases "flatten_up_to reg c t")
    case (Inl e)
    with "4.IH"(1) show ?thesis by auto
  next
    case (Inr xs)
    with "4.IH"(1) have head: "treedef_prefix c (tree_structure reg t None)" by auto
    from "4.IH"(2) [OF Inr] head Inr show ?thesis
      by (auto split: sum.splits)
  qed
next
  case (5 reg t ts)
  show ?case by simp
next
  case (6 reg c cs)
  show ?case by simp
qed

lemma flatten_up_to_misfit:
  "flatten_up_to reg td r = Inl (StructureMismatch Shape) \<longleftrightarrow>
     \<not> treedef_prefix td (tree_structure reg r None)"
proof (cases "flatten_up_to reg td r")
  case (Inl e)
  with flatten_up_to_error(1) [OF Inl] flatten_up_to_prefix(1) [of reg td r] show ?thesis by simp
next
  case (Inr xs)
  with flatten_up_to_prefix(1) [of reg td r] show ?thesis by auto
qed

section \<open>Mapping\<close>

lemma collect_error:
  assumes "\<exists>x \<in> set xs. \<exists>e. g x = Inl e" and "\<And>x e. x \<in> set xs \<Longrightarrow> g x = Inl e \<Longrightarrow> e = E"
  shows "collect (map g xs) = Inl E"
  using assms
proof (induction xs)
  case Nil
  then show ?case by simp
next
  case (Cons x xs)
  show ?case
  proof (cases "g x")
    case (Inl e)
    with Cons.prems(2) [of x e] show ?thesis by simp
  next
    case (Inr y)
    with Cons.prems(1) have "\<exists>x \<in> set xs. \<exists>e. g x = Inl e" by auto
    with Cons.IH Cons.prems(2) have "collect (map g xs) = Inl E" by auto
    with Inr show ?thesis by simp
  qed
qed

lemma collect_list_all2:
  "list_all2 (\<lambda>x y. g x = Inr y) xs ys \<Longrightarrow> collect (map g xs) = Inr ys"
  by (induction xs ys rule: list_all2_induct) auto

lemma collect_nth:
  assumes "length ys = length xs" and "\<forall>i < length xs. g (xs ! i) = Inr (ys ! i)"
  shows "collect (map g xs) = Inr ys"
proof -
  have "list_all2 (\<lambda>x y. g x = Inr y) xs ys"
    using assms by (simp add: list_all2_conv_all_nth)
  then show ?thesis by (rule collect_list_all2)
qed

text \<open>The function of the example: \<^verbatim>\<open>lambda x, y: [x] + y\<close>.\<close>

definition prepend :: "'a pytree list \<Rightarrow> error + 'a pytree" where
  "prepend xs = (case xs of [x, PyList y] \<Rightarrow> Inr (PyList ([x] @ y)) | _ \<Rightarrow> Inl PyTypeError)"

lemma tree_map_unfold:
  assumes "tree_flatten reg tree is_leaf = (leaves, treedef)"
  shows "tree_map reg f tree rest is_leaf =
     (case collect (map (\<lambda>r. flatten_up_to reg treedef r) rest) of
        Inl e \<Rightarrow> Inl e
      | Inr rest_leaves \<Rightarrow>
          (case collect (map f (zip_star (leaves # rest_leaves))) of
             Inl e \<Rightarrow> Inl e
           | Inr ys \<Rightarrow> unflatten treedef ys))"
  using assms by (auto simp: tree_map_def Let_def split: sum.splits)

text \<open>
  Claim C3. With \<open>leaves\<close> and \<open>treedef\<close> what flattening the first tree returns:
  \<^item> flattening a rest tree up to \<open>treedef\<close> succeeds exactly when \<open>treedef\<close> is a prefix of the
    structure of the rest tree, and fails with \<open>StructureMismatch\<close> otherwise: the rest tree
    must have the node type, the metadata and the number of children of \<open>treedef\<close> wherever
    \<open>treedef\<close> branches, and may be anything where \<open>treedef\<close> has a \<open>Leaf\<close>;
  \<^item> when the structure of some tree of \<open>rest\<close> does not have \<open>treedef\<close> as a prefix,
    \<^verbatim>\<open>tree_map\<close> fails with \<open>StructureMismatch\<close>;
  \<^item> when every tree of \<open>rest\<close> flattens up to \<open>treedef\<close>, and \<open>ys\<close> are the values of \<open>f\<close> on
    the leaf of each position followed by the values the rest trees have at that position,
    \<^verbatim>\<open>tree_map\<close> returns \<open>treedef\<close> unflattened on \<open>ys\<close>, which is a tree;
  \<^item> the tree itself flattens up to its own treedef, giving its leaves, and a \<open>Leaf\<close> of the
    treedef takes any value whole;
  \<^item> \<^verbatim>\<open>tree_map(lambda x, y: [x] + y, [5, 6], [[7, 9], [1, 2]])\<close> is
    \<^verbatim>\<open>[[5, 7, 9], [6, 1, 2]]\<close>.
\<close>

theorem tree_map_spec:
  assumes "tree_flatten reg (tree :: 'a pytree) is_leaf = (leaves, treedef)"
  shows "((\<exists>xs. flatten_up_to reg treedef (r :: 'a pytree) = Inr xs) \<longleftrightarrow>
            treedef_prefix treedef (tree_structure reg r None)) \<and>
         (flatten_up_to reg treedef r = Inl (StructureMismatch Shape) \<longleftrightarrow>
            \<not> treedef_prefix treedef (tree_structure reg r None)) \<and>
         ((\<exists>r \<in> set rest. \<not> treedef_prefix treedef (tree_structure reg r None)) \<longrightarrow>
            tree_map reg f tree rest is_leaf = Inl (StructureMismatch Shape)) \<and>
         ((\<exists>r \<in> set rest. \<exists>e. flatten_up_to reg treedef r = Inl e) \<longrightarrow>
            tree_map reg f tree rest is_leaf = Inl (StructureMismatch Shape)) \<and>
         (list_all2 (\<lambda>r xs. flatten_up_to reg treedef r = Inr xs) rest rest_leaves \<and>
          length ys = length leaves \<and>
          (\<forall>i < length leaves. f (leaves ! i # map (\<lambda>xs. xs ! i) rest_leaves) = Inr (ys ! i)) \<longrightarrow>
            tree_map reg f tree rest is_leaf = tree_unflatten treedef ys \<and>
            (wf_pytree tree \<longrightarrow> (\<exists>t. tree_unflatten treedef ys = Inr t))) \<and>
         flatten_up_to reg treedef tree = Inr leaves \<and>
         flatten_up_to reg LeafDef r = Inr [r] \<and>
         tree_map reg prepend (PyList [Opaque x1, Opaque x2])
             [PyList [PyList [Opaque y1, Opaque y2], PyList [Opaque z1, Opaque z2]]] None
           = Inr (PyList [PyList [Opaque x1, Opaque y1, Opaque y2],
                          PyList [Opaque x2, Opaque z1, Opaque z2]])"
proof -
  have td: "treedef = snd (flatten reg tree is_leaf)" and lv: "leaves = fst (flatten reg tree is_leaf)"
    using assms by (simp_all add: tree_flatten_def)
  have n: "num_leaves treedef = length leaves"
    unfolding td lv by (rule flatten_num_leaves)
  have failure: "tree_map reg f tree rest is_leaf = Inl (StructureMismatch Shape)"
    if "\<exists>r \<in> set rest. \<exists>e. flatten_up_to reg treedef r = Inl e"
  proof -
    have "collect (map (\<lambda>r. flatten_up_to reg treedef r) rest) = Inl (StructureMismatch Shape)"
      using that by (intro collect_error) (auto dest: flatten_up_to_error(1))
    then show ?thesis
      by (simp add: tree_map_unfold [OF assms])
  qed
  have success: "tree_map reg f tree rest is_leaf = tree_unflatten treedef ys \<and>
            (wf_pytree tree \<longrightarrow> (\<exists>t. tree_unflatten treedef ys = Inr t))"
    if rel: "list_all2 (\<lambda>r xs. flatten_up_to reg treedef r = Inr xs) rest rest_leaves"
      and len: "length ys = length leaves"
      and f: "\<forall>i < length leaves. f (leaves ! i # map (\<lambda>xs. xs ! i) rest_leaves) = Inr (ys ! i)"
  proof -
    have c1: "collect (map (\<lambda>r. flatten_up_to reg treedef r) rest) = Inr rest_leaves"
      using rel by (rule collect_list_all2)
    have "length xs = length leaves" if "xs \<in> set rest_leaves" for xs
    proof -
      from that rel obtain r where "flatten_up_to reg treedef r = Inr xs"
        by (auto simp: in_set_conv_nth list_all2_conv_all_nth)
      then show ?thesis using flatten_up_to_length(1) n by metis
    qed
    then have "\<forall>row \<in> set (leaves # rest_leaves). length row = length leaves"
      by auto
    from zip_star_rect [OF _ this]
    have z: "zip_star (leaves # rest_leaves)
               = map (\<lambda>i. leaves ! i # map (\<lambda>xs. xs ! i) rest_leaves) [0..<length leaves]"
      by simp
    have c2: "collect (map f (zip_star (leaves # rest_leaves))) = Inr ys"
      unfolding z by (rule collect_nth) (use len f in simp_all)
    have "tree_map reg f tree rest is_leaf = tree_unflatten treedef ys"
      using c1 c2 by (simp add: tree_map_unfold [OF assms] tree_unflatten_def)
    moreover have "\<exists>t. tree_unflatten treedef ys = Inr t" if "wf_pytree tree"
      using unflatten_iff(2) [of treedef ys] flatten_wf_treedef [OF that, of reg is_leaf] len n
      by (simp add: td tree_unflatten_def)
    ultimately show ?thesis by blast
  qed
  have example: "tree_map reg prepend (PyList [Opaque x1, Opaque x2])
             [PyList [PyList [Opaque y1, Opaque y2], PyList [Opaque z1, Opaque z2]]] None
           = Inr (PyList [PyList [Opaque x1, Opaque y1, Opaque y2],
                          PyList [Opaque x2, Opaque z1, Opaque z2]])"
    by (simp add: tree_map_def tree_flatten_def flatten.simps leaf_pred_def zip_star.simps
          prepend_def unflatten_def)
  have self: "flatten_up_to reg treedef tree = Inr leaves"
    unfolding td lv by (rule flatten_up_to_self)
  have diverging: "tree_map reg f tree rest is_leaf = Inl (StructureMismatch Shape)"
    if "\<exists>r \<in> set rest. \<not> treedef_prefix treedef (tree_structure reg r None)"
  proof -
    from that obtain r where "r \<in> set rest"
      "flatten_up_to reg treedef r = Inl (StructureMismatch Shape)"
      using flatten_up_to_misfit by blast
    then have "\<exists>r \<in> set rest. \<exists>e. flatten_up_to reg treedef r = Inl e"
      by blast
    then show ?thesis by (rule failure)
  qed
  show ?thesis
    using failure success example self flatten_up_to_prefix(1) [of reg treedef r]
      flatten_up_to_misfit [of reg treedef r] diverging
    by simp
qed

theorem tree_map_spec_witness:
  "tree_flatten \<lparr>enable_none = True, node_types = []\<rparr>
       (PyList [Opaque (5::int), Opaque 6]) None
     = ([Opaque 5, Opaque 6], NodeDef ListType NoData [LeafDef, LeafDef]) \<and>
   \<not> treedef_prefix (NodeDef ListType NoData [LeafDef, LeafDef])
       (tree_structure \<lparr>enable_none = True, node_types = []\<rparr>
          (PyTuple [Opaque (7::int), Opaque 9]) None) \<and>
   tree_map \<lparr>enable_none = True, node_types = []\<rparr> prepend
       (PyList [Opaque (5::int), Opaque 6]) [PyTuple [Opaque 7, Opaque 9]] None
     = Inl (StructureMismatch Shape) \<and>
   tree_flatten \<lparr>enable_none = True, node_types = []\<rparr>
       (PyDict [(''a'', Opaque (1::int))]) None
     = ([Opaque 1], NodeDef DictType (Keys [''a'']) [LeafDef]) \<and>
   \<not> treedef_prefix (NodeDef DictType (Keys [''a'']) [LeafDef])
       (tree_structure \<lparr>enable_none = True, node_types = []\<rparr>
          (PyDict [(''b'', Opaque (2::int))]) None) \<and>
   tree_map \<lparr>enable_none = True, node_types = []\<rparr> prepend
       (PyDict [(''a'', Opaque (1::int))]) [PyDict [(''b'', Opaque 2)]] None
     = Inl (StructureMismatch Shape) \<and>
   tree_map \<lparr>enable_none = True, node_types = []\<rparr> prepend
       (PyList [Opaque (5::int), Opaque 6])
       [PyList [PyList [Opaque 7, Opaque 9], PyList [Opaque 1, Opaque 2]]] None
     = Inr (PyList [PyList [Opaque 5, Opaque 7, Opaque 9], PyList [Opaque 6, Opaque 1, Opaque 2]])"
proof -
  let ?reg = "\<lparr>enable_none = True, node_types = []\<rparr>"
  let ?tree = "PyList [Opaque (5::int), Opaque 6]"
  let ?td = "NodeDef ListType NoData [LeafDef, LeafDef]"
  let ?dict = "PyDict [(''a'', Opaque (1::int))]"
  let ?dd = "NodeDef DictType (Keys [''a'']) [LeafDef]"
  let ?ys = "[PyList [Opaque (5::int), Opaque 7, Opaque 9], PyList [Opaque 6, Opaque 1, Opaque 2]]"
  let ?rl = "[[PyList [Opaque (7::int), Opaque 9], PyList [Opaque 1, Opaque 2]]]"
  let ?fine = "PyList [PyList [Opaque (7::int), Opaque 9], PyList [Opaque 1, Opaque 2]]"
  have fl: "tree_flatten ?reg ?tree None = ([Opaque 5, Opaque 6], ?td)"
    by (simp add: tree_flatten_def flatten.simps leaf_pred_def)
  have fd: "tree_flatten ?reg ?dict None = ([Opaque 1], ?dd)"
    by (simp add: tree_flatten_def flatten.simps leaf_pred_def dict_to_iter_def)
  have np: "\<not> treedef_prefix ?td (tree_structure ?reg (PyTuple [Opaque (7::int), Opaque 9]) None)"
    by (simp add: tree_structure_def flatten.simps leaf_pred_def)
  have nd: "\<not> treedef_prefix ?dd (tree_structure ?reg (PyDict [(''b'', Opaque (2::int))]) None)"
    by (simp add: tree_structure_def flatten.simps leaf_pred_def dict_to_iter_def)
  have part1: "tree_map ?reg prepend ?tree [PyTuple [Opaque 7, Opaque 9]] None
                 = Inl (StructureMismatch Shape)"
    using tree_map_spec [OF fl, where rest = "[PyTuple [Opaque 7, Opaque 9]]" and f = prepend
      and r = "PyTuple [Opaque (7::int), Opaque 9]" and rest_leaves = "[]" and ys = "[]"
      and ?x1.0 = "5::int" and ?x2.0 = "6::int" and ?y1.0 = "7::int" and ?y2.0 = "9::int"
      and ?z1.0 = "1::int" and ?z2.0 = "2::int"] np
    by simp
  have part2: "tree_map ?reg prepend ?dict [PyDict [(''b'', Opaque 2)]] None
                 = Inl (StructureMismatch Shape)"
    using tree_map_spec [OF fd, where rest = "[PyDict [(''b'', Opaque 2)]]" and f = prepend
      and r = "PyDict [(''b'', Opaque (2::int))]" and rest_leaves = "[]" and ys = "[]"
      and ?x1.0 = "5::int" and ?x2.0 = "6::int" and ?y1.0 = "7::int" and ?y2.0 = "9::int"
      and ?z1.0 = "1::int" and ?z2.0 = "2::int"] nd
    by simp
  have pre: "\<forall>i < length [Opaque (5::int), Opaque 6].
      prepend ([Opaque (5::int), Opaque 6] ! i # map (\<lambda>xs. xs ! i) ?rl) = Inr (?ys ! i)"
    by (simp add: prepend_def nth_Cons' less_2_cases_iff numeral_2_eq_2 [symmetric])
  have up: "flatten_up_to ?reg ?td ?fine = Inr [PyList [Opaque 7, Opaque 9], PyList [Opaque 1, Opaque 2]]"
    by simp
  have "tree_map ?reg prepend ?tree [?fine] None = tree_unflatten ?td ?ys"
    using tree_map_spec [OF fl, where f = prepend and ys = ?ys and rest_leaves = ?rl
      and rest = "[?fine]" and r = ?fine
      and ?x1.0 = "5::int" and ?x2.0 = "6::int" and ?y1.0 = "7::int" and ?y2.0 = "9::int"
      and ?z1.0 = "1::int" and ?z2.0 = "2::int"] pre up
    by simp
  then have part3: "tree_map ?reg prepend ?tree [?fine] None
     = Inr (PyList [PyList [Opaque 5, Opaque 7, Opaque 9], PyList [Opaque 6, Opaque 1, Opaque 2]])"
    by (simp add: tree_unflatten_def unflatten_def)
  from fl fd np nd part1 part2 part3 show ?thesis by simp
qed

section \<open>Equality diagnostics\<close>

text \<open>
  Claim C7 fails on the code for two \<^verbatim>\<open>defaultdict\<close>s with the same keys inserted in different
  orders. Their treedefs are equal, for \<^verbatim>\<open>_flatten_defaultdict\<close> sorts the keys; but the key
  handler registered for \<^verbatim>\<open>defaultdict\<close> gives the keys in insertion order, the child keys of
  the two differ, and \<^verbatim>\<open>_equality_errors\<close> fails its own assertion that equal nodes give equal
  keys, where it should yield nothing. Two \<^verbatim>\<open>dict\<close>s built the same way yield nothing: the
  handler of \<^verbatim>\<open>dict\<close> sorts.
\<close>

theorem equality_errors_defaultdict_assertion:
  "tree_structure (default_registry initial_state)
       (PyDefaultDict None [(''b'', Opaque (1::int)), (''a'', Opaque 2)]) None
     = tree_structure (default_registry initial_state)
       (PyDefaultDict None [(''a'', Opaque (1::int)), (''b'', Opaque 2)]) None \<and>
   equality_errors (default_registry initial_state)
       (PyDefaultDict None [(''b'', Opaque (1::int)), (''a'', Opaque 2)])
       (PyDefaultDict None [(''a'', Opaque (1::int)), (''b'', Opaque 2)]) None
     = Inl AssertionError \<and>
   equality_errors (default_registry initial_state)
       (PyDict [(''b'', Opaque (1::int)), (''a'', Opaque 2)])
       (PyDict [(''a'', Opaque (1::int)), (''b'', Opaque 2)]) None
     = Inr []"
  by code_simp

section \<open>Prefix diagnostics\<close>

lemma node_not_strict_leaf: "\<not> treedef_is_strict_leaf (NodeDef ty d cs)"
proof
  assume "treedef_is_strict_leaf (NodeDef ty d cs)"
  then have n: "num_nodes (NodeDef ty d cs) = 1" and l: "num_leaves (NodeDef ty d cs) = 1"
    by (simp_all add: treedef_is_strict_leaf_def)
  from n have "cs = []"
    using single_node_cases [of "NodeDef ty d cs"] by simp
  with l show False by simp
qed

lemma unregistered_strict_leaf:
  "registry_flatten_one_level reg t = None \<Longrightarrow>
   treedef_is_strict_leaf (tree_structure reg t is_leaf)"
  by (simp add: tree_structure_def flatten_unregistered treedef_is_strict_leaf_def)

lemma strict_leaf_no_error:
  "treedef_is_strict_leaf (tree_structure reg prefix_tree is_leaf) \<Longrightarrow>
   prefix_error_impl reg key_path prefix_tree full_tree is_leaf = Inr []"
  by (simp add: prefix_error_impl.simps)

lemma collect_all_nil:
  "(\<And>x. x \<in> set xs \<Longrightarrow> g x = Inr []) \<Longrightarrow>
   \<exists>ys. collect (map g xs) = Inr ys \<and> concat ys = []"
proof (induction xs)
  case Nil
  then show ?case by simp
next
  case (Cons x xs)
  then obtain ys where "collect (map g xs) = Inr ys" "concat ys = []" by auto
  moreover from Cons.prems have "g x = Inr []" by simp
  ultimately show ?case by simp
qed

lemma list_of_leaves_no_error:
  assumes len: "length ps = length fs"
    and leaves: "\<forall>p \<in> set ps. registry_flatten_one_level reg p = None"
  shows "prefix_errors reg (PyList ps) (PyList fs) None = Inr []"
proof -
  let ?keys = "map SequenceKey [0..<length ps]"
  have st: "\<not> treedef_is_strict_leaf (tree_structure reg (PyList t) None)" for t :: "'a pytree list"
    by (simp add: tree_structure_def flatten_node [where cs = t and d = NoData] leaf_pred_def
          node_not_strict_leaf)
  have k1: "child_keys reg (PyList ps) = Inr ?keys"
    using st [of ps] by (simp add: child_keys_def)
  have k2: "child_keys reg (PyList fs) = Inr ?keys"
    using st [of fs] len by (simp add: child_keys_def)
  have "prefix_error_impl reg ([] @ [k]) t1 t2 None = Inr []"
    if "(k, t1, t2) \<in> set (zip ?keys (zip ps fs))" for k t1 t2
  proof -
    from that have "(t1, t2) \<in> set (zip ps fs)"
      by (rule set_zip_rightD)
    then have "t1 \<in> set ps"
      by (rule set_zip_leftD)
    with leaves show ?thesis
      by (simp add: strict_leaf_no_error unregistered_strict_leaf)
  qed
  then have "\<And>x. x \<in> set (zip ?keys (zip ps fs)) \<Longrightarrow>
      (\<lambda>(k, t1, t2). prefix_error_impl reg ([] @ [k]) t1 t2 None) x = Inr []"
    by auto
  from collect_all_nil [of "zip ?keys (zip ps fs)"
      "\<lambda>(k, t1, t2). prefix_error_impl reg ([] @ [k]) t1 t2 None", OF this]
  obtain ys where
    "collect (map (\<lambda>(k, t1, t2). prefix_error_impl reg ([] @ [k]) t1 t2 None)
                (zip ?keys (zip ps fs))) = Inr ys" "concat ys = []"
    by blast
  then show ?thesis
    using st [of ps] k1 k2 len
    by (simp add: prefix_errors_def prefix_error_impl.simps [of reg "[]" "PyList ps"]
          flatten_one_level_def)
qed

text \<open>
  With no \<^verbatim>\<open>is_leaf\<close> the leaves are the values of unregistered type, at the root and below
  it, and the example of the specification, \<^verbatim>\<open>prefix_errors([1, 2], [[1, 2], [3, 4]])\<close>,
  yields no error.
\<close>

lemma prefix_errors_example:
  "prefix_errors reg (PyList [Opaque x1, Opaque x2])
     (PyList [PyList [Opaque x1, Opaque x2], PyList [Opaque x3, Opaque x4]]) None = Inr []"
  by (rule list_of_leaves_no_error) simp_all

text \<open>
  Claim C8: whenever the prefix tree, or a subtree of it reached during the comparison, is a
  leaf, \<^verbatim>\<open>prefix_errors\<close> yields no error for that position. The code does not do this for the
  leaves the caller's \<^verbatim>\<open>is_leaf\<close> makes: the recursive call of \<^verbatim>\<open>_prefix_error\<close> passes no
  \<^verbatim>\<open>is_leaf\<close>, unlike that of \<^verbatim>\<open>_equality_errors\<close>. With the predicate "is a tuple",
  \<^verbatim>\<open>[(1, 2)]\<close> flattens to the one leaf \<^verbatim>\<open>(1, 2)\<close>, at index 0, and \<^verbatim>\<open>flatten_up_to\<close> of its
  treedef accepts \<^verbatim>\<open>[5]\<close> and \<^verbatim>\<open>[{'a': 5}]\<close>; yet \<^verbatim>\<open>prefix_errors\<close> reports different types at
  index 0 for both. At the root the same predicate is honoured, and \<^verbatim>\<open>equality_errors\<close>
  honours it below the root.
\<close>

theorem prefix_errors_drops_is_leaf:
  "tree_flatten (default_registry initial_state) (PyList [PyTuple [Opaque (1::int), Opaque 2]])
       (Some (\<lambda>t. type_of t = TupleType))
     = ([PyTuple [Opaque 1, Opaque 2]], NodeDef ListType NoData [LeafDef]) \<and>
   treedef_is_strict_leaf
     (tree_structure (default_registry initial_state) (PyTuple [Opaque (1::int), Opaque 2])
        (Some (\<lambda>t. type_of t = TupleType))) \<and>
   flatten_up_to (default_registry initial_state) (NodeDef ListType NoData [LeafDef])
       (PyList [Opaque (5::int)]) = Inr [Opaque 5] \<and>
   flatten_up_to (default_registry initial_state) (NodeDef ListType NoData [LeafDef])
       (PyList [PyDict [(''a'', Opaque (5::int))]]) = Inr [PyDict [(''a'', Opaque 5)]] \<and>
   prefix_errors (default_registry initial_state) (PyList [PyTuple [Opaque (1::int), Opaque 2]])
       (PyList [Opaque 5]) (Some (\<lambda>t. type_of t = TupleType))
     = Inr [DifferentTypes [SequenceKey 0] TupleType OpaqueType] \<and>
   prefix_errors (default_registry initial_state) (PyList [PyTuple [Opaque (1::int), Opaque 2]])
       (PyList [PyDict [(''a'', Opaque 5)]]) (Some (\<lambda>t. type_of t = TupleType))
     = Inr [DifferentTypes [SequenceKey 0] TupleType DictType] \<and>
   prefix_errors (default_registry initial_state) (PyTuple [Opaque (1::int), Opaque 2])
       (PyDict [(''a'', Opaque 5)]) (Some (\<lambda>t. type_of t = TupleType))
     = Inr [] \<and>
   equality_errors (default_registry initial_state) (PyList [PyTuple [Opaque (1::int), Opaque 2]])
       (PyList [PyTuple [Opaque 3]]) (Some (\<lambda>t. type_of t = TupleType))
     = Inr []"
  by code_simp

end
